theory Spec2Isabelle
  imports Main "HOL-Library.Sublist"
begin

text \<open>
  The service of \<^verbatim>\<open>src/services/chat.service.ts\<close> answers a chat message with the help of a
  knowledge-base search and returns, next to the persisted turn, the products it found.
  The first part of this theory is the model of the code, function by function; the second
  part holds the properties.
\<close>

section \<open>JavaScript strings\<close>

text \<open>
  JavaScript strings are modelled as \<^typ>\<open>string\<close>: a \<^typ>\<open>char\<close> stands for a UTF-16 code
  unit below 256, so the model covers the texts of the Latin-1 range. The functions of this
  section are the built-in string operations the service uses.
\<close>

definition codeUnit :: "char \<Rightarrow> nat" where
  "codeUnit c = of_char c"

text \<open>
  The characters that \<^verbatim>\<open>\s\<close> matches and that \<^verbatim>\<open>trim\<close> strips (white space and line
  terminators): tab, line feed, vertical tab, form feed, carriage return, space and the
  no-break space.
\<close>

definition isWhiteSpace :: "char \<Rightarrow> bool" where
  "isWhiteSpace c = (codeUnit c = 9 \<or> codeUnit c = 10 \<or> codeUnit c = 11 \<or> codeUnit c = 12 \<or> codeUnit c = 13
                     \<or> codeUnit c = 32 \<or> codeUnit c = 160)"

definition isLineTerminator :: "char \<Rightarrow> bool" where
  "isLineTerminator c = (codeUnit c = 10 \<or> codeUnit c = 13)"

definition isDigit :: "char \<Rightarrow> bool" where
  "isDigit c = (48 \<le> codeUnit c \<and> codeUnit c \<le> 57)"

definition toUpperChar :: "char \<Rightarrow> char" where
  "toUpperChar c =
     (if (97 \<le> codeUnit c \<and> codeUnit c \<le> 122) \<or> (224 \<le> codeUnit c \<and> codeUnit c \<le> 254 \<and> codeUnit c \<noteq> 247)
      then char_of (codeUnit c - 32) else c)"

definition toLowerChar :: "char \<Rightarrow> char" where
  "toLowerChar c =
     (if (65 \<le> codeUnit c \<and> codeUnit c \<le> 90) \<or> (192 \<le> codeUnit c \<and> codeUnit c \<le> 222 \<and> codeUnit c \<noteq> 215)
      then char_of (codeUnit c + 32) else c)"

definition toLowerCase :: "string \<Rightarrow> string" where
  "toLowerCase s = map toLowerChar s"

definition trim :: "string \<Rightarrow> string" where
  "trim s = rev (dropWhile isWhiteSpace (rev (dropWhile isWhiteSpace s)))"

text \<open>\<^verbatim>\<open>s.startsWith(p)\<close>, by recursion on the pattern.\<close>

fun startsWith :: "string \<Rightarrow> string \<Rightarrow> bool" where
  "startsWith s [] = True"
| "startsWith [] (p # ps) = False"
| "startsWith (c # s) (p # ps) = (c = p \<and> startsWith s ps)"

text \<open>\<^verbatim>\<open>s.includes(p)\<close>: the pattern starts at some position of \<open>s\<close>.\<close>

fun str_includes :: "string \<Rightarrow> string \<Rightarrow> bool" where
  "str_includes [] p = (p = [])"
| "str_includes (c # s) p = (startsWith (c # s) p \<or> str_includes s p)"

text \<open>
  \<^verbatim>\<open>s.indexOf(p, from)\<close> for \<open>from\<close> within the string: the first position at or after
  \<open>from\<close> where the pattern starts, \<open>-1\<close> when there is none.
\<close>

fun indexOf_from :: "string \<Rightarrow> string \<Rightarrow> nat \<Rightarrow> int" where
  "indexOf_from [] p i = (if p = [] then int i else - 1)"
| "indexOf_from (c # s) p i = (if startsWith (c # s) p then int i else indexOf_from s p (Suc i))"

definition indexOf :: "string \<Rightarrow> string \<Rightarrow> nat \<Rightarrow> int" where
  "indexOf s p from = indexOf_from (drop from s) p (min from (length s))"

text \<open>
  \<^verbatim>\<open>s.substring(start, end)\<close>; \<open>None\<close> is an \<^verbatim>\<open>undefined\<close> end. Both positions are
  clamped to the string, and swapped when the start is the larger one.
\<close>

definition substring :: "string \<Rightarrow> int \<Rightarrow> int option \<Rightarrow> string" where
  "substring s start end' =
     (let len = int (length s);
          a = min (max start 0) len;
          b = (case end' of None \<Rightarrow> len | Some e \<Rightarrow> min (max e 0) len);
          from = min a b;
          to = max a b
      in take (nat (to - from)) (drop (nat from) s))"

text \<open>\<^verbatim>\<open>s.split('\n')\<close>: the pieces between the occurrences of one character.\<close>

fun splitOn :: "char \<Rightarrow> string \<Rightarrow> string list" where
  "splitOn sep [] = [[]]"
| "splitOn sep (c # s) =
     (if c = sep then [] # splitOn sep s
      else (case splitOn sep s of [] \<Rightarrow> [[c]] | piece # pieces \<Rightarrow> (c # piece) # pieces))"

text \<open>\<^verbatim>\<open>pieces.join(sep)\<close>.\<close>

fun joinWith :: "string \<Rightarrow> string list \<Rightarrow> string" where
  "joinWith sep [] = []"
| "joinWith sep [x] = x"
| "joinWith sep (x # y # ys) = x @ sep @ joinWith sep (y # ys)"

text \<open>
  The decimal numeral of an integer, as \<^verbatim>\<open>String(n)\<close> and template literals print a number of
  magnitude below \<open>10\<^sup>2\<^sup>1\<close>.
\<close>

fun showNat :: "nat \<Rightarrow> string" where
  "showNat n = (if n < 10 then [char_of (48 + n)] else showNat (n div 10) @ [char_of (48 + n mod 10)])"

definition showInt :: "int \<Rightarrow> string" where
  "showInt i = (if i < 0 then CHR ''-'' # showNat (nat (- i)) else showNat (nat i))"

section \<open>Regular expressions\<close>

text \<open>
  The service finds products in text with regular expressions. They are modelled by their
  syntax trees and a backtracking matcher that follows the ECMAScript semantics: the matcher
  returns every way a pattern can match at a position, in the order in which backtracking
  tries them, so that the head of the list is the match JavaScript reports.
\<close>

text \<open>A member of a character class: a character, a range, \<^verbatim>\<open>\s\<close>, \<^verbatim>\<open>\S\<close> or \<^verbatim>\<open>\d\<close>.\<close>

datatype item = ICh char | IRange char char | ISpace | INonSpace | IDigit

fun inItem :: "char \<Rightarrow> item \<Rightarrow> bool" where
  "inItem c (ICh a) = (c = a)"
| "inItem c (IRange a b) = (codeUnit a \<le> codeUnit c \<and> codeUnit c \<le> codeUnit b)"
| "inItem c ISpace = isWhiteSpace c"
| "inItem c INonSpace = (\<not> isWhiteSpace c)"
| "inItem c IDigit = isDigit c"

text \<open>
  \<open>RCls invert items\<close> is a class \<^verbatim>\<open>[...]\<close> (or \<^verbatim>\<open>[^...]\<close> when \<open>invert\<close> holds), \<open>RDot\<close> is
  \<^verbatim>\<open>.\<close>, \<open>RStar\<close> and \<open>RLazy\<close> are \<^verbatim>\<open>*\<close> and \<^verbatim>\<open>*?\<close>, \<open>RGroup n\<close> is the \<open>n\<close>-th capturing
  group, \<open>RAhead\<close> and \<open>RNotAhead\<close> are \<^verbatim>\<open>(?=...)\<close> and \<^verbatim>\<open>(?!...)\<close>, \<open>RBol\<close> and \<open>REol\<close> are
  \<^verbatim>\<open>^\<close> and \<^verbatim>\<open>$\<close>.
\<close>

datatype re =
    REps
  | RChr char
  | RCls bool "item list"
  | RDot
  | RSeq re re
  | RAlt re re
  | RStar re
  | RLazy re
  | RGroup nat re
  | RAhead re
  | RNotAhead re
  | RBol
  | REol

text \<open>The flags \<^verbatim>\<open>i\<close> and \<^verbatim>\<open>m\<close>; \<^verbatim>\<open>g\<close> is in the choice of the operation.\<close>

record flags =
  ignoreCase :: bool
  multiline :: bool

definition noFlags :: flags where
  "noFlags = \<lparr>ignoreCase = False, multiline = False\<rparr>"

definition flagI :: flags where
  "flagI = \<lparr>ignoreCase = True, multiline = False\<rparr>"

definition flagIM :: flags where
  "flagIM = \<lparr>ignoreCase = True, multiline = True\<rparr>"

text \<open>
  With \<^verbatim>\<open>i\<close> two characters match when their canonical (upper case) forms agree; a class
  matches a character when it has a member that agrees with it in this sense.
\<close>

definition charEq :: "flags \<Rightarrow> char \<Rightarrow> char \<Rightarrow> bool" where
  "charEq f a ch = (if ignoreCase f then toUpperChar a = toUpperChar ch else a = ch)"

definition classMatch :: "flags \<Rightarrow> bool \<Rightarrow> item list \<Rightarrow> char \<Rightarrow> bool" where
  "classMatch f invert items ch =
     (let found = (if ignoreCase f
                   then list_ex (\<lambda>a. list_ex (inItem a) items) [ch, toUpperChar ch, toLowerChar ch]
                   else list_ex (inItem ch) items)
      in found \<noteq> invert)"

text \<open>
  A state of the matcher: the captures so far (the latest first), the input before the
  current position (reversed) and the input from the current position on.
\<close>

type_synonym mstate = "(nat \<times> string) list \<times> string \<times> string"

definition remaining :: "mstate \<Rightarrow> string" where
  "remaining st = snd (snd st)"

definition consumed :: "mstate \<Rightarrow> string" where
  "consumed st = fst (snd st)"

fun step1 :: "(char \<Rightarrow> bool) \<Rightarrow> mstate \<Rightarrow> mstate list" where
  "step1 P (cs, b, []) = []"
| "step1 P (cs, b, ch # s) = (if P ch then [(cs, ch # b, s)] else [])"

text \<open>
  The iterations of \<^verbatim>\<open>*\<close> (greedy: more iterations first) and \<^verbatim>\<open>*?\<close> (lazy: fewer first).
  An iteration that consumes nothing is rejected, as ECMAScript does; hence the length of the
  remaining input bounds the number of iterations.
\<close>

fun star_iter :: "bool \<Rightarrow> (mstate \<Rightarrow> mstate list) \<Rightarrow> nat \<Rightarrow> mstate \<Rightarrow> mstate list" where
  "star_iter lazy step 0 st = [st]"
| "star_iter lazy step (Suc n) st =
     (let more = concat (map (\<lambda>st'. if length (remaining st') < length (remaining st)
                                      then star_iter lazy step n st' else [])
                             (step st))
      in if lazy then st # more else more @ [st])"

primrec ms :: "flags \<Rightarrow> re \<Rightarrow> mstate \<Rightarrow> mstate list" where
  "ms f REps = (\<lambda>st. [st])"
| "ms f (RChr a) = step1 (charEq f a)"
| "ms f (RCls invert items) = step1 (classMatch f invert items)"
| "ms f RDot = step1 (\<lambda>ch. \<not> isLineTerminator ch)"
| "ms f (RSeq r1 r2) = (\<lambda>st. concat (map (ms f r2) (ms f r1 st)))"
| "ms f (RAlt r1 r2) = (\<lambda>st. ms f r1 st @ ms f r2 st)"
| "ms f (RStar r) = (\<lambda>st. star_iter False (ms f r) (length (remaining st)) st)"
| "ms f (RLazy r) = (\<lambda>st. star_iter True (ms f r) (length (remaining st)) st)"
| "ms f (RGroup n r) =
     (\<lambda>st. map (\<lambda>(cs', b', s').
                  ((n, take (length (remaining st) - length s') (remaining st)) # cs', b', s'))
               (ms f r st))"
| "ms f (RAhead r) =
     (\<lambda>st. case ms f r st of [] \<Rightarrow> []
           | (cs', b', s') # _ \<Rightarrow> [(cs', consumed st, remaining st)])"
| "ms f (RNotAhead r) = (\<lambda>st. case ms f r st of [] \<Rightarrow> [st] | _ # _ \<Rightarrow> [])"
| "ms f RBol =
     (\<lambda>st. case consumed st of [] \<Rightarrow> [st]
           | p # _ \<Rightarrow> if multiline f \<and> isLineTerminator p then [st] else [])"
| "ms f REol =
     (\<lambda>st. case remaining st of [] \<Rightarrow> [st]
           | p # _ \<Rightarrow> if multiline f \<and> isLineTerminator p then [st] else [])"

text \<open>Abbreviations of the pattern syntax: a sequence, a literal, \<^verbatim>\<open>+\<close>, \<^verbatim>\<open>+?\<close> and \<^verbatim>\<open>?\<close>.\<close>

definition RSeqs :: "re list \<Rightarrow> re" where
  "RSeqs rs = foldr RSeq rs REps"

definition RLit :: "string \<Rightarrow> re" where
  "RLit s = RSeqs (map RChr s)"

definition RPlus :: "re \<Rightarrow> re" where
  "RPlus r = RSeq r (RStar r)"

definition RPlusLazy :: "re \<Rightarrow> re" where
  "RPlusLazy r = RSeq r (RLazy r)"

definition ROpt :: "re \<Rightarrow> re" where
  "ROpt r = RAlt r REps"

definition rxDigits :: re where "rxDigits = RPlus (RCls False [IDigit])"
definition rxSpaces :: re where "rxSpaces = RStar (RCls False [ISpace])"
definition rxAny :: re where "rxAny = RCls False [ISpace, INonSpace]"

text \<open>
  A match as the service reads it: \<^verbatim>\<open>match.index\<close>, the input before the match, the matched
  text \<^verbatim>\<open>match[0]\<close>, the captures and the input after the match.
\<close>

record rmatch =
  m_index :: nat
  m_before :: string
  m_text :: string
  m_groups :: "(nat \<times> string) list"
  m_after :: string

definition mkMatch :: "string \<Rightarrow> mstate \<Rightarrow> rmatch" where
  "mkMatch b0 st =
     \<lparr> m_index = length b0,
       m_before = rev b0,
       m_text = rev (take (length (consumed st) - length b0) (consumed st)),
       m_groups = fst st,
       m_after = remaining st \<rparr>"

text \<open>
  \<^verbatim>\<open>match[n]\<close>. Every group of the service's patterns takes part in every match of its
  pattern, so the case of an \<^verbatim>\<open>undefined\<close> group does not arise; it reads as the empty string.
\<close>

definition capture :: "rmatch \<Rightarrow> nat \<Rightarrow> string" where
  "capture m n = (case map_of (m_groups m) n of Some s \<Rightarrow> s | None \<Rightarrow> [])"

text \<open>
  \<^verbatim>\<open>RegExp.prototype.exec\<close>: the first position, from the current one on, where the pattern
  matches, with the first match there. The result is the input before the match (reversed)
  and the final state of the matcher.
\<close>

fun exec_at :: "flags \<Rightarrow> re \<Rightarrow> string \<Rightarrow> string \<Rightarrow> (string \<times> mstate) option" where
  "exec_at f r b [] = (case ms f r ([], b, []) of [] \<Rightarrow> None | st # _ \<Rightarrow> Some (b, st))"
| "exec_at f r b (ch # s) =
     (case ms f r ([], b, ch # s) of [] \<Rightarrow> exec_at f r (ch # b) s | st # _ \<Rightarrow> Some (b, st))"

text \<open>\<^verbatim>\<open>s.match(r)\<close> for a pattern without \<^verbatim>\<open>g\<close>, and \<^verbatim>\<open>r.test(s)\<close>.\<close>

definition matchRe :: "flags \<Rightarrow> re \<Rightarrow> string \<Rightarrow> rmatch option" where
  "matchRe f r s = map_option (\<lambda>(b0, st). mkMatch b0 st) (exec_at f r [] s)"

definition testRe :: "flags \<Rightarrow> re \<Rightarrow> string \<Rightarrow> bool" where
  "testRe f r s = (exec_at f r [] s \<noteq> None)"

text \<open>
  \<^verbatim>\<open>s.matchAll(r)\<close> for a pattern with \<^verbatim>\<open>g\<close>: the successive matches, each search starting
  where the previous match ended, one character further after an empty match. Every round
  moves on in the input, so the length of the input plus one bounds the number of rounds.
\<close>

fun matchAll_from :: "nat \<Rightarrow> flags \<Rightarrow> re \<Rightarrow> string \<Rightarrow> string \<Rightarrow> rmatch list" where
  "matchAll_from 0 f r b s = []"
| "matchAll_from (Suc n) f r b s =
     (case exec_at f r b s of
        None \<Rightarrow> []
      | Some (b0, st) \<Rightarrow>
          mkMatch b0 st #
          (if length (consumed st) = length b0
           then (case remaining st of [] \<Rightarrow> []
                 | ch # s2 \<Rightarrow> matchAll_from n f r (ch # consumed st) s2)
           else matchAll_from n f r (consumed st) (remaining st)))"

definition matchAll :: "flags \<Rightarrow> re \<Rightarrow> string \<Rightarrow> rmatch list" where
  "matchAll f r s = matchAll_from (Suc (length s)) f r [] s"

text \<open>
  \<^verbatim>\<open>s.replace(r, rep)\<close> with a replacement text without \<^verbatim>\<open>$\<close>: the first match when the
  pattern has no \<^verbatim>\<open>g\<close>, every match when it has.
\<close>

definition replaceFirst :: "flags \<Rightarrow> re \<Rightarrow> string \<Rightarrow> string \<Rightarrow> string" where
  "replaceFirst f r rep s =
     (case exec_at f r [] s of None \<Rightarrow> s | Some (b0, st) \<Rightarrow> rev b0 @ rep @ remaining st)"

fun replaceAll_from :: "nat \<Rightarrow> flags \<Rightarrow> re \<Rightarrow> string \<Rightarrow> string \<Rightarrow> string \<Rightarrow> string" where
  "replaceAll_from 0 f r rep b s = s"
| "replaceAll_from (Suc n) f r rep b s =
     (case exec_at f r b s of
        None \<Rightarrow> s
      | Some (b0, st) \<Rightarrow>
          rev (take (length b0 - length b) b0) @ rep @
          (if length (consumed st) = length b0
           then (case remaining st of [] \<Rightarrow> []
                 | ch # s2 \<Rightarrow> ch # replaceAll_from n f r rep (ch # consumed st) s2)
           else replaceAll_from n f r rep (consumed st) (remaining st)))"

definition replaceAll :: "flags \<Rightarrow> re \<Rightarrow> string \<Rightarrow> string \<Rightarrow> string" where
  "replaceAll f r rep s = replaceAll_from (Suc (length s)) f r rep [] s"

text \<open>
  \<^verbatim>\<open>s.split(r)\<close> for a pattern without capturing groups. At each position \<open>q\<close> the pattern is
  tried at \<open>q\<close> only; a match that ends where the current piece starts moves \<open>q\<close> on by one,
  any other match closes the piece and starts the next one at the end of the match.
  \<open>cur\<close> is the current piece (reversed). A position is visited at most twice.
\<close>

fun split_loop :: "nat \<Rightarrow> flags \<Rightarrow> re \<Rightarrow> string \<Rightarrow> string \<Rightarrow> string \<Rightarrow> string list" where
  "split_loop 0 f r cur b s = [rev cur @ s]"
| "split_loop (Suc n) f r cur b [] = [rev cur]"
| "split_loop (Suc n) f r cur b (ch # s) =
     (case ms f r ([], b, ch # s) of
        [] \<Rightarrow> split_loop n f r (ch # cur) (ch # b) s
      | st # _ \<Rightarrow>
          if length (remaining st) = Suc (length s) \<and> cur = []
          then split_loop n f r (ch # cur) (ch # b) s
          else rev cur # split_loop n f r [] (consumed st) (remaining st))"

definition splitRe :: "flags \<Rightarrow> re \<Rightarrow> string \<Rightarrow> string list" where
  "splitRe f r s =
     (if s = [] then (case ms f r ([], [], []) of [] \<Rightarrow> [[]] | _ # _ \<Rightarrow> [])
      else split_loop (2 * length s + 2) f r [] [] s)"

section \<open>JSON values\<close>

text \<open>
  The values that \<^verbatim>\<open>JSON.parse\<close> produces and \<^verbatim>\<open>JSON.stringify\<close> prints: the arguments of
  a tool call, the \<^verbatim>\<open>metadata\<close> bag of a matched document, the payload of a tool result.
  Numbers are the integral ones of magnitude below \<open>10\<^sup>2\<^sup>1\<close>, which \<^verbatim>\<open>String\<close> prints in full
  decimal notation (larger ones print with an exponent and are outside the model). A
  property that an object does not have reads as \<^verbatim>\<open>undefined\<close>, which is \<open>None\<close> here.
\<close>

datatype json =
    JNull
  | JBool bool
  | JNum int
  | JStr string
  | JArr "json list"
  | JObj "(string \<times> json) list"

text \<open>
  \<^verbatim>\<open>value.key\<close> on a value that is neither \<^verbatim>\<open>null\<close> nor \<^verbatim>\<open>undefined\<close>, for the keys the
  service reads (none of them is a built-in property of strings or arrays).
\<close>

fun getProp :: "json \<Rightarrow> string \<Rightarrow> json option" where
  "getProp (JObj kvs) key = map_of kvs key"
| "getProp v key = None"

text \<open>Truthiness, as \<^verbatim>\<open>||\<close>, \<^verbatim>\<open>&&\<close>, \<^verbatim>\<open>!\<close> and \<^verbatim>\<open>if\<close> read a value.\<close>

fun truthy :: "json option \<Rightarrow> bool" where
  "truthy None = False"
| "truthy (Some JNull) = False"
| "truthy (Some (JBool b)) = b"
| "truthy (Some (JNum n)) = (n \<noteq> 0)"
| "truthy (Some (JStr s)) = (s \<noteq> [])"
| "truthy (Some (JArr xs)) = True"
| "truthy (Some (JObj kvs)) = True"

text \<open>\<^verbatim>\<open>a || b\<close>: the left value when it is truthy, the right one otherwise.\<close>

definition orElse :: "json option \<Rightarrow> json option \<Rightarrow> json option" where
  "orElse a b = (if truthy a then a else b)"

text \<open>
  \<^verbatim>\<open>String(value)\<close>. An array prints its elements separated by commas, \<^verbatim>\<open>null\<close> elements as
  the empty string; an object prints as \<^verbatim>\<open>[object Object]\<close>.
\<close>

fun toString :: "json \<Rightarrow> string" where
  "toString JNull = ''null''"
| "toString (JBool b) = (if b then ''true'' else ''false'')"
| "toString (JNum n) = showInt n"
| "toString (JStr s) = s"
| "toString (JArr xs) = joinWith '','' (map (\<lambda>x. if x = JNull then [] else toString x) xs)"
| "toString (JObj kvs) = ''[object Object]''"

definition String' :: "json option \<Rightarrow> string" where
  "String' v = (case v of None \<Rightarrow> ''undefined'' | Some x \<Rightarrow> toString x)"

section \<open>Products\<close>

text \<open>\<^verbatim>\<open>interface Product { name: string; productId: string; description: string; }\<close>\<close>

record Product =
  name :: string
  productId :: string
  description :: string

text \<open>
  \<^verbatim>\<open>Array.prototype.findIndex\<close>: the index of the first element that satisfies the
  predicate, \<open>-1\<close> when there is none.
\<close>

fun findIndex :: "('a \<Rightarrow> bool) \<Rightarrow> 'a list \<Rightarrow> int" where
  "findIndex P [] = - 1"
| "findIndex P (x # xs) =
     (if P x then 0
      else (let r = findIndex P xs in if r < 0 then - 1 else r + 1))"

text \<open>
  The deduplication that ends \<^verbatim>\<open>extractProductsFromDocuments\<close> and that \<^verbatim>\<open>addMessage\<close>
  applies to the accumulated products:
  \<^verbatim>\<open>products.filter((product, index, self) =>
       index === self.findIndex((p) => p.productId === product.productId))\<close>
\<close>

definition uniqueProducts :: "Product list \<Rightarrow> Product list" where
  "uniqueProducts self =
     map snd (filter (\<lambda>(index, product).
                 int index = findIndex (\<lambda>p. productId p = productId product) self)
              (enumerate 0 self))"

text \<open>
  The enrichment step of \<^verbatim>\<open>addMessage\<close>: the body of the \<^verbatim>\<open>uniqueProducts.map\<close> callback.
  \<^verbatim>\<open>assistantProducts.find(ap => ap.productId === product.productId)\<close> is the first
  record of the assistant text with the product's identifier.
\<close>

definition enrichProduct :: "Product list \<Rightarrow> Product \<Rightarrow> Product" where
  "enrichProduct assistantProducts product =
     (case find (\<lambda>ap. productId ap = productId product) assistantProducts of
        Some assistantProduct \<Rightarrow>
          \<lparr> name =
              (if name product = ''Product '' @ productId product
                  \<and> name assistantProduct \<noteq> ''Product '' @ productId product
               then name assistantProduct else name product),
            productId = productId product,
            description =
              (if description product = ''No description available''
                  \<and> description assistantProduct \<noteq> ''No description available''
               then description assistantProduct else description product) \<rparr>
      | None \<Rightarrow> product)"

definition enrichProducts :: "Product list \<Rightarrow> Product list \<Rightarrow> Product list" where
  "enrichProducts assistantProducts uniqueProducts' =
     map (enrichProduct assistantProducts) uniqueProducts'"

section \<open>Products of the assistant's text\<close>

text \<open>The patterns of \<^verbatim>\<open>extractProductsFromAssistantMessage\<close>, in the order of the source.\<close>

text \<open>\<^verbatim>\<open>/(?=\d+\.\s*\*\*)/\<close>\<close>

definition rxSection :: re where
  "rxSection = RAhead (RSeqs [rxDigits, RChr CHR ''.'', rxSpaces, RLit ''**''])"

text \<open>\<^verbatim>\<open>/\d+\.\s*\*\*([^*]+)\*\*/\<close>\<close>

definition rxBoldName :: re where
  "rxBoldName =
     RSeqs [rxDigits, RChr CHR ''.'', rxSpaces, RLit ''**'',
            RGroup 1 (RPlus (RCls True [ICh CHR ''*''])), RLit ''**'']"

text \<open>\<^verbatim>\<open>/Product ID\*?\*?:\s*(\d+)/i\<close>\<close>

definition rxBoldId :: re where
  "rxBoldId =
     RSeqs [RLit ''Product ID'', ROpt (RChr CHR ''*''), ROpt (RChr CHR ''*''), RChr CHR '':'',
            rxSpaces, RGroup 1 rxDigits]"

text \<open>\<^verbatim>\<open>/Description\*?\*?:\s*([^-\n]+(?:\n(?!.*:)[^-\n]+)*)/i\<close>\<close>

definition rxBoldDescription :: re where
  "rxBoldDescription =
     RSeqs [RLit ''Description'', ROpt (RChr CHR ''*''), ROpt (RChr CHR ''*''), RChr CHR '':'',
            rxSpaces,
            RGroup 1 (RSeqs
              [RPlus (RCls True [ICh CHR ''-'', ICh CHR 0x0A]),
               RStar (RSeqs [RChr CHR 0x0A,
                             RNotAhead (RSeqs [RStar RDot, RChr CHR '':'']),
                             RPlus (RCls True [ICh CHR ''-'', ICh CHR 0x0A])])])]"

text \<open>\<^verbatim>\<open>/Details\*?\*?:\s*([\s\S]*?)(?=\n\s*-\s*\*\*[A-Z]|$)/i\<close>\<close>

definition rxBoldDetails :: re where
  "rxBoldDetails =
     RSeqs [RLit ''Details'', ROpt (RChr CHR ''*''), ROpt (RChr CHR ''*''), RChr CHR '':'',
            rxSpaces,
            RGroup 1 (RLazy rxAny),
            RAhead (RAlt (RSeqs [RChr CHR 0x0A, rxSpaces, RChr CHR ''-'', rxSpaces, RLit ''**'',
                                 RCls False [IRange CHR ''A'' CHR ''Z'']])
                         REol)]"

text \<open>\<^verbatim>\<open>/\s*\n\s*/g\<close> and \<^verbatim>\<open>/\s+/g\<close>, which normalise a description.\<close>

definition rxNewline :: re where
  "rxNewline = RSeqs [rxSpaces, RChr CHR 0x0A, rxSpaces]"

definition rxBlanks :: re where
  "rxBlanks = RPlus (RCls False [ISpace])"

text \<open>
  One round of the loop over the sections: the records the section adds to \<open>products\<close>
  (none when the section is blank or has no identifier, one otherwise).
\<close>

definition sectionProducts :: "string \<Rightarrow> Product list" where
  "sectionProducts section =
     (if trim section = [] then []
      else
        let nameMatch = matchRe noFlags rxBoldName section;
            name' = (case nameMatch of Some m \<Rightarrow> trim (capture m 1) | None \<Rightarrow> [])
        in case matchRe flagI rxBoldId section of
             None \<Rightarrow> []
           | Some idMatch \<Rightarrow>
               let productId' = capture idMatch 1;
                   description1 = (case matchRe flagI rxBoldDescription section of
                                     Some descMatch \<Rightarrow> trim (capture descMatch 1)
                                   | None \<Rightarrow> []);
                   description2 = (case matchRe flagI rxBoldDetails section of
                                     Some detailsMatch \<Rightarrow>
                                       if description1 = [] then trim (capture detailsMatch 1)
                                       else description1
                                   | None \<Rightarrow> description1);
                   description3 = trim (replaceAll noFlags rxBlanks '' ''
                                          (replaceAll noFlags rxNewline '' '' description2))
               in if productId' \<noteq> []
                  then [\<lparr> name = (if name' \<noteq> [] then name' else ''Product '' @ productId'),
                          productId = productId',
                          description = (if description3 \<noteq> [] then description3
                                         else ''No description available'') \<rparr>]
                  else [])"

text \<open>
  \<^verbatim>\<open>extractProductsFromAssistantMessage\<close>. The operations in its \<^verbatim>\<open>try\<close> block are string
  operations on a string, which do not throw, so the \<^verbatim>\<open>catch\<close> branch is never taken.
\<close>

definition extractProductsFromAssistantMessage :: "string \<Rightarrow> Product list" where
  "extractProductsFromAssistantMessage message =
     concat (map sectionProducts (splitRe noFlags rxSection message))"

section \<open>Products of the matched documents\<close>

text \<open>
  \<^verbatim>\<open>type SupabaseDocument = { id: string; content: string;
       metadata: Record<string, unknown>; similarity: number; }\<close>
  The metadata bag is a JSON value (it may be \<^verbatim>\<open>null\<close>); the similarity is a number that the
  service never reads.
\<close>

record SupabaseDocument =
  doc_id :: string
  content :: string
  metadata :: json
  similarity :: int

text \<open>The patterns of \<^verbatim>\<open>extractProductsFromDocuments\<close>, in the order of the source.\<close>

text \<open>\<^verbatim>\<open>/Product ID[:\s]*(\d+)/gi\<close>\<close>

definition rxProductId :: re where
  "rxProductId =
     RSeqs [RLit ''Product ID'', RStar (RCls False [ICh CHR '':'', ISpace]), RGroup 1 rxDigits]"

text \<open>\<^verbatim>\<open>/^\d+\.\s*/\<close>, \<^verbatim>\<open>/\*\*/g\<close> and \<^verbatim>\<open>/^[-\<bullet>]\s*/\<close>, which clean a name. The bullet is outside the
  Latin-1 range, so on the texts of the model the class of the third pattern is \<^verbatim>\<open>[-]\<close>.\<close>

definition rxNumbering :: re where
  "rxNumbering = RSeqs [RBol, rxDigits, RChr CHR ''.'', rxSpaces]"

definition rxBold :: re where
  "rxBold = RLit ''**''"

definition rxBullet :: re where
  "rxBullet = RSeqs [RBol, RCls False [ICh CHR ''-''], rxSpaces]"

text \<open>\<^verbatim>\<open>/Description[:\s]*([\s\S]*?)(?=\n\n|\n\s*[-\<bullet>]|\nProduct ID|$)/i\<close>\<close>

definition rxDescription :: re where
  "rxDescription =
     RSeqs [RLit ''Description'', RStar (RCls False [ICh CHR '':'', ISpace]),
            RGroup 1 (RLazy rxAny),
            RAhead (RAlt (RLit [CHR 0x0A, CHR 0x0A])
                   (RAlt (RSeqs [RChr CHR 0x0A, rxSpaces, RCls False [ICh CHR ''-'']])
                   (RAlt (RSeqs [RChr CHR 0x0A, RLit ''Product ID''])
                         REol)))]"

text \<open>\<^verbatim>\<open>/^\s*[-\<bullet>]?\s*(.+?)(?=\n\n|\n\s*[-\<bullet>]|$)/\<close>\<close>

definition rxNextParagraph :: re where
  "rxNextParagraph =
     RSeqs [RBol, rxSpaces, ROpt (RCls False [ICh CHR ''-'']), rxSpaces,
            RGroup 1 (RPlusLazy RDot),
            RAhead (RAlt (RLit [CHR 0x0A, CHR 0x0A])
                   (RAlt (RSeqs [RChr CHR 0x0A, rxSpaces, RCls False [ICh CHR ''-'']])
                         REol))]"

text \<open>\<^verbatim>\<open>/(?:^|\n)(?:\d+\.\s*|#+\s*)([^\n]+)[\s\S]*?(?:Product ID|ID)[:\s]*(\d+)/gmi\<close>\<close>

definition rxStructured :: re where
  "rxStructured =
     RSeqs [RAlt RBol (RChr CHR 0x0A),
            RAlt (RSeqs [rxDigits, RChr CHR ''.'', rxSpaces])
                 (RSeqs [RPlus (RChr CHR ''#''), rxSpaces]),
            RGroup 1 (RPlus (RCls True [ICh CHR 0x0A])),
            RLazy rxAny,
            RAlt (RLit ''Product ID'') (RLit ''ID''),
            RStar (RCls False [ICh CHR '':'', ISpace]),
            RGroup 2 rxDigits]"

text \<open>\<^verbatim>\<open>/Description[:\s]*([\s\S]+?)(?=\n\n|$)/i\<close>\<close>

definition rxBlockDescription :: re where
  "rxBlockDescription =
     RSeqs [RLit ''Description'', RStar (RCls False [ICh CHR '':'', ISpace]),
            RGroup 1 (RPlusLazy rxAny),
            RAhead (RAlt (RLit [CHR 0x0A, CHR 0x0A]) REol)]"

text \<open>
  The first step on a document: the record of its metadata, when the metadata name an
  identifier and a name or a description.
  \<^verbatim>\<open>if (doc.metadata && (doc.metadata.productId || doc.metadata.product_id || doc.metadata.id))\<close>
\<close>

definition fromMetadata :: "json \<Rightarrow> Product list" where
  "fromMetadata md =
     (let idValue = orElse (orElse (getProp md ''productId'') (getProp md ''product_id''))
                           (getProp md ''id'')
      in if truthy (Some md) \<and> truthy idValue then
           let productId' = String' idValue;
               name' = String' (orElse (orElse (orElse (getProp md ''name'')
                                  (getProp md ''product_name'')) (getProp md ''title''))
                                  (Some (JStr [])));
               description' = String' (orElse (orElse (getProp md ''description'')
                                  (getProp md ''details'')) (Some (JStr [])))
           in if productId' \<noteq> [] \<and> (name' \<noteq> [] \<or> description' \<noteq> [])
              then [\<lparr> name = (if name' \<noteq> [] then name' else ''Product '' @ productId'),
                      productId = productId',
                      description = (if description' \<noteq> [] then description'
                                     else ''No description available'') \<rparr>]
              else []
         else [])"

text \<open>
  The name that precedes a \<^verbatim>\<open>Product ID\<close> marker: the last non-blank line before it,
  cleaned, and dropped when it is long, has a colon or mentions a description.
\<close>

definition nameBefore :: "string \<Rightarrow> string" where
  "nameBefore beforeContent =
     (let beforeLines = filter (\<lambda>l. trim l \<noteq> []) (splitOn (CHR 0x0A) beforeContent)
      in if beforeLines \<noteq> [] then
           let lastLine = last beforeLines;
               name' = trim (replaceFirst noFlags rxBullet []
                               (replaceAll noFlags rxBold []
                                  (replaceFirst noFlags rxNumbering [] lastLine)))
           in if length name' > 100 \<or> CHR '':'' \<in> set name'
                 \<or> str_includes (toLowerCase name') ''description''
              then [] else name'
         else [])"

text \<open>The description that follows a \<^verbatim>\<open>Product ID\<close> marker, normalised and cut at 300.\<close>

definition descriptionAfter :: "string \<Rightarrow> string" where
  "descriptionAfter afterContent =
     (let description1 =
            (case matchRe flagI rxDescription afterContent of
               Some descMatch \<Rightarrow> trim (capture descMatch 1)
             | None \<Rightarrow>
                 (case matchRe noFlags rxNextParagraph afterContent of
                    Some nextParagraph \<Rightarrow> trim (capture nextParagraph 1)
                  | None \<Rightarrow> []))
      in if description1 \<noteq> []
         then trim (take 300 (replaceAll noFlags rxBlanks '' ''
                                (replaceAll noFlags rxNewline '' '' description1)))
         else description1)"

text \<open>
  \<^verbatim>\<open>existingProduct.name = name\<close> and \<^verbatim>\<open>existingProduct.description = description\<close> change
  the record that \<^verbatim>\<open>find\<close> returned, the first one of the list with the identifier.
\<close>

fun upgradeFirst :: "string \<Rightarrow> string \<Rightarrow> string \<Rightarrow> Product list \<Rightarrow> Product list" where
  "upgradeFirst productId' name' description' [] = []"
| "upgradeFirst productId' name' description' (p # ps) =
     (if productId p = productId'
      then p \<lparr> name := (if name' \<noteq> [] \<and> name p = ''Product '' @ productId'
                         then name' else name p),
               description := (if description' \<noteq> []
                                  \<and> description p = ''No description available''
                               then description' else description p) \<rparr> # ps
      else p # upgradeFirst productId' name' description' ps)"

text \<open>One round of the loop over the \<^verbatim>\<open>Product ID\<close> markers of the content.\<close>

definition markerStep :: "Product list \<Rightarrow> rmatch \<Rightarrow> Product list" where
  "markerStep extractedProducts m =
     (let productId' = capture m 1;
          name' = nameBefore (m_before m);
          description' = descriptionAfter (m_after m)
      in case find (\<lambda>p. productId p = productId') extractedProducts of
           Some existingProduct \<Rightarrow> upgradeFirst productId' name' description' extractedProducts
         | None \<Rightarrow>
             extractedProducts @
             [\<lparr> name = (if name' \<noteq> [] then name' else ''Product '' @ productId'),
                productId = productId',
                description = (if description' \<noteq> [] then description'
                               else ''No description available'') \<rparr>])"

text \<open>One round of the loop over the structured headings: the record it pushes.\<close>

definition structuredProduct :: "string \<Rightarrow> rmatch \<Rightarrow> Product" where
  "structuredProduct content' m =
     (let name' = trim (replaceAll noFlags rxBold [] (capture m 1));
          productId' = capture m 2;
          blockStart = int (m_index m);
          blockEnd = indexOf content' [CHR 0x0A, CHR 0x0A] (m_index m + length (m_text m));
          block = substring content' blockStart (if blockEnd > 0 then Some blockEnd else None);
          description' = (case matchRe flagI rxBlockDescription block of
                            Some descMatch \<Rightarrow> trim (capture descMatch 1)
                          | None \<Rightarrow> substring block 0 (Some 200))
      in \<lparr> name = (if name' \<noteq> [] then name' else ''Product '' @ productId'),
           productId = productId',
           description = (if description' \<noteq> [] then description'
                          else ''No description available'') \<rparr>)"

text \<open>
  The body of the loop over the documents: the records that one document adds to
  \<open>products\<close>. The operations in its \<^verbatim>\<open>try\<close> block do not throw on a document of the declared
  type.
\<close>

definition documentProducts :: "SupabaseDocument \<Rightarrow> Product list" where
  "documentProducts doc =
     (let extracted1 = fromMetadata (metadata doc);
          extracted2 =
            (if extracted1 = []
                \<or> (case extracted1 of p # _ \<Rightarrow> name p = ''Product '' @ productId p | [] \<Rightarrow> False)
             then foldl markerStep extracted1 (matchAll flagI rxProductId (content doc))
             else extracted1);
          extracted3 =
            (if extracted2 = []
             then map (structuredProduct (content doc)) (matchAll flagIM rxStructured (content doc))
             else extracted2)
      in extracted3)"

definition extractProductsFromDocuments :: "SupabaseDocument list \<Rightarrow> Product list" where
  "extractProductsFromDocuments docs = uniqueProducts (concat (map documentProducts docs))"

section \<open>Thrown values and the retry wrapper\<close>

text \<open>
  What a \<^verbatim>\<open>catch\<close> clause receives: an \<^verbatim>\<open>Error\<close> object with its message, its stack text
  and its \<^verbatim>\<open>code\<close> property when it has one (the service reads all three), or any other
  value (\<^verbatim>\<open>undefined\<close> is \<open>None\<close>).
\<close>

datatype thrown =
    Error (message: string) (stack: string) (errorCode: "json option")
  | NonError "json option"

text \<open>
  \<^verbatim>\<open>new Error(m)\<close>. The stack text of such an object starts with the line written here; the
  frames that follow depend on the engine and are left out.
\<close>

definition newError :: "string \<Rightarrow> thrown" where
  "newError m = Error m (''Error: '' @ m) None"

text \<open>\<^verbatim>\<open>error instanceof Error\<close>, and the truthiness of a caught value.\<close>

fun isError :: "thrown \<Rightarrow> bool" where
  "isError (Error m st c) = True"
| "isError (NonError v) = False"

fun truthyThrown :: "thrown \<Rightarrow> bool" where
  "truthyThrown (Error m st c) = True"
| "truthyThrown (NonError v) = truthy v"

text \<open>\<^verbatim>\<open>error instanceof Error ? error.message : 'Unknown error'\<close>\<close>

fun messageOr :: "thrown \<Rightarrow> string" where
  "messageOr (Error m st c) = m"
| "messageOr (NonError v) = ''Unknown error''"

text \<open>
  The test of \<^verbatim>\<open>withRetry\<close> for a configuration error:
  \<^verbatim>\<open>error instanceof Error && (error.message.includes('does not exist') ||
       error.message.includes('Missing Supabase'))\<close>
\<close>

fun isConfigurationError :: "thrown \<Rightarrow> bool" where
  "isConfigurationError (Error m st c) =
     (str_includes m ''does not exist'' \<or> str_includes m ''Missing Supabase'')"
| "isConfigurationError (NonError v) = False"

text \<open>
  \<^verbatim>\<open>withRetry(fn, maxRetries = 3, baseDelay = 1000)\<close>. The operation \<open>fn\<close> acts on a state and
  returns a value or throws; \<open>sleep\<close> is the wait \<^verbatim>\<open>setTimeout(resolve, delay)\<close> as an action
  on the state. The loop runs while \<open>i < maxRetries\<close>, so \<open>maxRetries - i\<close> decreases.
\<close>

function withRetry_loop ::
  "('s \<Rightarrow> (thrown + 'a) \<times> 's) \<Rightarrow> (int \<Rightarrow> 's \<Rightarrow> 's) \<Rightarrow> int \<Rightarrow> int \<Rightarrow> int
     \<Rightarrow> thrown option \<Rightarrow> 's \<Rightarrow> (thrown + 'a) \<times> 's" where
  "withRetry_loop fn sleep maxRetries baseDelay i lastError s =
     (if i < maxRetries then
        (case fn s of
           (Inr v, s') \<Rightarrow> (Inr v, s')
         | (Inl error, s') \<Rightarrow>
             if isConfigurationError error then (Inl error, s')
             else if i < maxRetries - 1
             then withRetry_loop fn sleep maxRetries baseDelay (i + 1) (Some error)
                    (sleep (baseDelay * 2 ^ nat i) s')
             else withRetry_loop fn sleep maxRetries baseDelay (i + 1) (Some error) s')
      else
        (Inl (case lastError of
                Some e \<Rightarrow> if truthyThrown e then e else newError ''Failed after retries''
              | None \<Rightarrow> newError ''Failed after retries''), s))"
  by pat_completeness auto
termination
  by (relation "measure (\<lambda>(fn, sleep, maxRetries, baseDelay, i, lastError, s). nat (maxRetries - i))")
     auto

declare withRetry_loop.simps [simp del]

definition withRetry ::
  "('s \<Rightarrow> (thrown + 'a) \<times> 's) \<Rightarrow> (int \<Rightarrow> 's \<Rightarrow> 's) \<Rightarrow> int \<Rightarrow> int \<Rightarrow> 's
     \<Rightarrow> (thrown + 'a) \<times> 's" where
  "withRetry fn sleep maxRetries baseDelay s =
     withRetry_loop fn sleep maxRetries baseDelay 0 None s"

text \<open>
  An instrumented operation for the statements about \<^verbatim>\<open>withRetry\<close>: its \<open>k\<close>-th call
  (counted from \<open>0\<close>) has the outcome \<open>outcomes k\<close>; the state counts the calls and records
  the waits.
\<close>

record probe =
  calls :: nat
  waits :: "int list"

definition probeFn :: "(nat \<Rightarrow> thrown + 'a) \<Rightarrow> probe \<Rightarrow> (thrown + 'a) \<times> probe" where
  "probeFn outcomes p = (outcomes (calls p), p \<lparr> calls := Suc (calls p) \<rparr>)"

definition probeSleep :: "int \<Rightarrow> probe \<Rightarrow> probe" where
  "probeSleep delay p = p \<lparr> waits := waits p @ [delay] \<rparr>"

definition probe0 :: probe where
  "probe0 = \<lparr> calls = 0, waits = [] \<rparr>"

section \<open>The providers, the store and the trace\<close>

text \<open>
  The service talks to three collaborators: the OpenAI client (embeddings and chat
  completions), the Supabase client (the \<^verbatim>\<open>match_documents\<close> procedure) and the Prisma client
  (agents and chat messages). Their answers are not the service's to decide, so the model
  takes them from an environment: the answer to the \<open>k\<close>-th call of a kind (counted from
  \<open>0\<close>) is a value or a thrown value. The state holds the table of chat messages and a trace,
  the list of the calls made so far in the order in which they were made.
\<close>

type_synonym embedding = "int list"

text \<open>The \<^verbatim>\<open>error\<close> and \<^verbatim>\<open>data\<close> of the answer of \<^verbatim>\<open>supabase.rpc\<close>.\<close>

record rpcError =
  err_code :: "string option"
  err_message :: "string option"

record rpcResponse =
  rpc_data :: "SupabaseDocument list option"
  rpc_error :: "rpcError option"

text \<open>
  A string that is read by \<^verbatim>\<open>JSON.parse\<close> or written by \<^verbatim>\<open>JSON.stringify\<close> stands for the
  value it denotes: \<open>JsonOf v\<close> is the text of the value \<open>v\<close>. \<open>NotJson t m\<close> is a text \<open>t\<close>
  that is not JSON, together with the message \<open>m\<close> of the \<^verbatim>\<open>SyntaxError\<close> that \<^verbatim>\<open>JSON.parse\<close>
  throws on it: the message is the engine's and depends on the text, so it is part of the
  input. The stack text of the error starts with the line written here.
\<close>

datatype jsonText = NotJson string string | JsonOf json

definition JSON_parse :: "jsonText \<Rightarrow> thrown + json" where
  "JSON_parse t =
     (case t of
        NotJson s m \<Rightarrow> Inl (Error m (''SyntaxError: '' @ m) None)
      | JsonOf v \<Rightarrow> Inr v)"

definition JSON_stringify :: "json \<Rightarrow> jsonText" where
  "JSON_stringify v = JsonOf v"

text \<open>
  \<^verbatim>\<open>OpenAI.Chat.ChatCompletionMessageToolCall\<close>: \<^verbatim>\<open>{ id, type: 'function',
  function: { name, arguments } }\<close>.
\<close>

record ToolCall =
  call_id :: string
  fn_name :: string
  fn_arguments :: jsonText

datatype MessageRole = System | User | Assistant | Tool

text \<open>The content of a message: a text, or the serialised result of a tool.\<close>

datatype msgText = Text string | ToolText jsonText

text \<open>\<^verbatim>\<open>interface ChatMessageItem\<close>; \<open>tool_name\<close> is its field \<^verbatim>\<open>name\<close>.\<close>

record ChatMessageItem =
  role :: MessageRole
  msg_content :: "msgText option"
  tool_calls :: "ToolCall list option"
  tool_call_id :: "string option"
  tool_name :: "string option"

text \<open>\<^verbatim>\<open>response.choices[0].message\<close> of a chat completion.\<close>

record completionMessage =
  cm_content :: "string option"
  cm_tool_calls :: "ToolCall list option"

text \<open>A row of the table of chat messages (\<^verbatim>\<open>ChatMessage\<close> of the Prisma client).\<close>

record ChatMessage =
  row_id :: string
  row_sessionId :: string
  row_userMessage :: "string option"
  row_assistantMessage :: "string option"
  row_createdAt :: int
  row_updatedAt :: int

text \<open>\<^verbatim>\<open>interface ChatMessageResponse\<close>\<close>

record ChatMessageResponse =
  msg_id :: string
  sessionId :: string
  userMessage :: "string option"
  assistantMessage :: "string option"
  products :: "Product list"
  createdAt :: int
  updatedAt :: int

datatype event =
    EmbeddingCall string
  | RpcCall embedding
  | Sleep int
  | CompletionCall "ChatMessageItem list"
  | ToolExecution ToolCall
  | DbFindAgent string
  | DbFindMessages string
  | DbCreateMessage string "string option" "string option"

fun isEmbeddingCall :: "event \<Rightarrow> bool" where
  "isEmbeddingCall (EmbeddingCall t) = True"
| "isEmbeddingCall e = False"

fun isRpcCall :: "event \<Rightarrow> bool" where
  "isRpcCall (RpcCall v) = True"
| "isRpcCall e = False"

fun isCompletionCall :: "event \<Rightarrow> bool" where
  "isCompletionCall (CompletionCall msgs) = True"
| "isCompletionCall e = False"

fun isToolExecution :: "event \<Rightarrow> bool" where
  "isToolExecution (ToolExecution tc) = True"
| "isToolExecution e = False"

fun isDbCall :: "event \<Rightarrow> bool" where
  "isDbCall (DbFindAgent a) = True"
| "isDbCall (DbFindMessages s) = True"
| "isDbCall (DbCreateMessage s u a) = True"
| "isDbCall e = False"

record env =
  embeddingsCreate :: "nat \<Rightarrow> thrown + embedding option"
  rpcMatchDocuments :: "nat \<Rightarrow> thrown + rpcResponse"
  chatCompletionsCreate :: "nat \<Rightarrow> thrown + completionMessage option"
  dbFailure :: "nat \<Rightarrow> thrown option"
  agentSystemPrompt :: "string \<Rightarrow> string option"
  newRowId :: "nat \<Rightarrow> string"
  clock :: "nat \<Rightarrow> int"

record state =
  chatMessages :: "ChatMessage list"
  trace :: "event list"

definition countEvents :: "(event \<Rightarrow> bool) \<Rightarrow> state \<Rightarrow> nat" where
  "countEvents P s = length (filter P (trace s))"

definition logEvent :: "event \<Rightarrow> state \<Rightarrow> state" where
  "logEvent e s = s \<lparr> trace := trace s @ [e] \<rparr>"

text \<open>The wait of \<^verbatim>\<open>withRetry\<close> between two attempts.\<close>

definition sleep :: "int \<Rightarrow> state \<Rightarrow> state" where
  "sleep delay s = logEvent (Sleep delay) s"

section \<open>Knowledge search\<close>

text \<open>
  \<^verbatim>\<open>getEmbedding\<close>: the embedding of the answer (\<open>None\<close> when the answer has none), or an error
  that wraps the message of what the call threw.
\<close>

definition getEmbedding :: "env \<Rightarrow> string \<Rightarrow> state \<Rightarrow> (thrown + embedding option) \<times> state" where
  "getEmbedding E text' s =
     (let s' = logEvent (EmbeddingCall text') s
      in case embeddingsCreate E (countEvents isEmbeddingCall s) of
           Inl error \<Rightarrow> (Inl (newError (''Failed to create embedding: '' @ messageOr error)), s')
         | Inr v \<Rightarrow> (Inr v, s'))"

text \<open>
  The call of \<^verbatim>\<open>supabase.rpc('match_documents', ...)\<close> and the reading of its answer. What
  the call throws is thrown on; an answer with an \<^verbatim>\<open>error\<close> becomes one of two errors.
\<close>

definition matchDocuments ::
  "env \<Rightarrow> embedding \<Rightarrow> state \<Rightarrow> (thrown + SupabaseDocument list) \<times> state" where
  "matchDocuments E embedding' s =
     (let s' = logEvent (RpcCall embedding') s
      in case rpcMatchDocuments E (countEvents isRpcCall s) of
           Inl rpcError' \<Rightarrow> (Inl rpcError', s')
         | Inr response \<Rightarrow>
             (case rpc_error response of
                Some error \<Rightarrow>
                  if err_code error = Some ''P0001''
                     \<or> (case err_message error of Some m \<Rightarrow> str_includes m ''function''
                         | None \<Rightarrow> False)
                     \<or> (case err_message error of Some m \<Rightarrow> str_includes m ''does not exist''
                         | None \<Rightarrow> False)
                  then (Inl (newError (''The match_documents function does not exist in Supabase. ''
                               @ ''Please ensure it is created in your database.'')), s')
                  else (Inl (newError (''Supabase error: ''
                               @ (case err_message error of Some m \<Rightarrow> m
                                  | None \<Rightarrow> ''undefined''))), s')
              | None \<Rightarrow>
                  (Inr (case rpc_data response of Some data \<Rightarrow> data | None \<Rightarrow> []), s')))"

text \<open>
  \<^verbatim>\<open>searchSupabaseEmbedding\<close>. The tool invoker passes \<^verbatim>\<open>args.query\<close>, which is any JSON value
  or \<^verbatim>\<open>undefined\<close>: a falsy query gives the empty list; on a truthy query that is not a
  string the call \<^verbatim>\<open>query.trim()\<close> throws a \<^verbatim>\<open>TypeError\<close>. Both \<^verbatim>\<open>catch\<close> clauses of the
  function throw on what they caught.
\<close>

definition searchSupabaseEmbedding ::
  "env \<Rightarrow> json option \<Rightarrow> state \<Rightarrow> (thrown + SupabaseDocument list) \<times> state" where
  "searchSupabaseEmbedding E query s =
     (if \<not> truthy query then (Inr [], s)
      else case query of
        Some (JStr q) \<Rightarrow>
          if length (trim q) = 0 then (Inr [], s)
          else
            (case getEmbedding E q s of
               (Inl error, s1) \<Rightarrow> (Inl error, s1)
             | (Inr embedding', s1) \<Rightarrow>
                 (case embedding' of
                    None \<Rightarrow> (Inr [], s1)
                  | Some v \<Rightarrow>
                      if length v = 0 then (Inr [], s1) else matchDocuments E v s1))
      | _ \<Rightarrow> (Inl (Error ''query.trim is not a function''
                       ''TypeError: query.trim is not a function'' None), s))"

section \<open>The tool invoker\<close>

text \<open>What \<^verbatim>\<open>executeToolCall\<close> returns: \<^verbatim>\<open>{ result: string; products: Product[] }\<close>.\<close>

record toolResult =
  tr_result :: jsonText
  tr_products :: "Product list"

definition productJson :: "Product \<Rightarrow> json" where
  "productJson p =
     JObj [(''productId'', JStr (productId p)), (''name'', JStr (name p)),
           (''description'', JStr (description p))]"

definition documentJson :: "SupabaseDocument \<Rightarrow> json" where
  "documentJson d =
     JObj [(''id'', JStr (doc_id d)), (''content'', JStr (content d)),
           (''metadata'', metadata d), (''similarity'', JNum (similarity d))]"

text \<open>The \<^verbatim>\<open>catch\<close> clause of the search case: the error as a payload.\<close>

definition searchFailure :: "thrown \<Rightarrow> toolResult" where
  "searchFailure error =
     (let errorMessage = messageOr error;
          errorDetails = (case error of Error m st c \<Rightarrow> st | NonError v \<Rightarrow> []);
          hint = (if str_includes errorMessage ''fetch failed''
                  then ''Network connection issue. Check Supabase URL and internet connection.''
                  else if str_includes errorMessage ''does not exist''
                  then ''The match_documents function is missing. ''
                       @ ''Please create it in your Supabase database.''
                  else if str_includes errorMessage ''Missing Supabase''
                  then ''Supabase environment variables are not configured.''
                  else [])
      in \<lparr> tr_result = JSON_stringify (JObj
             [(''error'', JStr ''Failed to search knowledge base''),
              (''message'', JStr errorMessage),
              (''details'', JStr errorDetails),
              (''hint'', JStr hint),
              (''code'', (case error of Error m st (Some c) \<Rightarrow> c | _ \<Rightarrow> JStr [])),
              (''products'', JArr [])]),
           tr_products = [] \<rparr>)"

definition noDocuments :: toolResult where
  "noDocuments =
     \<lparr> tr_result = JSON_stringify (JObj
         [(''message'', JStr ''No documents found matching your query.''),
          (''results'', JArr []), (''products'', JArr [])]),
       tr_products = [] \<rparr>"

definition searchSuccess :: "SupabaseDocument list \<Rightarrow> toolResult" where
  "searchSuccess docs =
     (let products' = extractProductsFromDocuments docs
      in \<lparr> tr_result = JSON_stringify (JObj
             [(''message'', JStr (''Found '' @ showNat (length docs)
                  @ '' relevant document(s) containing '' @ showNat (length products')
                  @ '' product(s).'')),
              (''results'', JArr (map documentJson docs)),
              (''products'', JArr (map productJson products'))]),
           tr_products = products' \<rparr>)"

definition unknownTool :: "string \<Rightarrow> toolResult" where
  "unknownTool toolName =
     \<lparr> tr_result = JSON_stringify (JObj [(''error'', JStr (''Unknown tool: '' @ toolName))]),
       tr_products = [] \<rparr>"

text \<open>
  The \<^verbatim>\<open>TypeError\<close> of \<^verbatim>\<open>args.query\<close> when the arguments are \<^verbatim>\<open>null\<close>, with the message that
  V8 (the engine of Node.js) gives it; the \<^verbatim>\<open>try\<close> block throws it at its first statement.
\<close>

definition nullArguments :: thrown where
  "nullArguments =
     Error ''Cannot read properties of null (reading 'query')''
           ''TypeError: Cannot read properties of null (reading 'query')'' None"

text \<open>
  \<^verbatim>\<open>executeToolCall\<close>. \<^verbatim>\<open>JSON.parse(toolCall.function.arguments)\<close> is its first statement,
  before the \<^verbatim>\<open>switch\<close> and outside the \<^verbatim>\<open>try\<close>: what it throws leaves the function. In the
  search case the arguments \<^verbatim>\<open>null\<close> make \<^verbatim>\<open>args.query\<close> throw a \<^verbatim>\<open>TypeError\<close> inside the
  \<^verbatim>\<open>try\<close>. The trace records the invocation.
\<close>

definition executeToolCall :: "env \<Rightarrow> ToolCall \<Rightarrow> state \<Rightarrow> (thrown + toolResult) \<times> state" where
  "executeToolCall E toolCall s =
     (let s0 = logEvent (ToolExecution toolCall) s
      in case JSON_parse (fn_arguments toolCall) of
           Inl syntaxError \<Rightarrow> (Inl syntaxError, s0)
         | Inr args \<Rightarrow>
             if fn_name toolCall = ''search_knowledge_base'' then
               (if args = JNull
                then (Inr (searchFailure nullArguments), s0)
                else
                  (case withRetry (searchSupabaseEmbedding E (getProp args ''query'')) sleep
                          3 1000 s0 of
                     (Inl error, s1) \<Rightarrow> (Inr (searchFailure error), s1)
                   | (Inr docs, s1) \<Rightarrow>
                       if length docs = 0 then (Inr noDocuments, s1)
                       else (Inr (searchSuccess docs), s1)))
             else (Inr (unknownTool (fn_name toolCall)), s0))"

section \<open>The store\<close>

text \<open>
  A call of the Prisma client: the trace records it, and the environment decides whether it
  throws.
\<close>

definition dbCall :: "env \<Rightarrow> event \<Rightarrow> state \<Rightarrow> thrown option \<times> state" where
  "dbCall E e s = (dbFailure E (countEvents isDbCall s), logEvent e s)"

text \<open>\<^verbatim>\<open>prisma.agent.findUnique({ where: { id }, select: { systemPrompt: true } })\<close>\<close>

definition findAgent :: "env \<Rightarrow> string \<Rightarrow> state \<Rightarrow> (thrown + string option) \<times> state" where
  "findAgent E agentId s =
     (case dbCall E (DbFindAgent agentId) s of
        (Some error, s') \<Rightarrow> (Inl error, s')
      | (None, s') \<Rightarrow> (Inr (agentSystemPrompt E agentId), s'))"

text \<open>\<^verbatim>\<open>prisma.chatMessage.findMany({ where: { sessionId }, orderBy: { createdAt: 'asc' } })\<close>\<close>

definition findMessages :: "env \<Rightarrow> string \<Rightarrow> state \<Rightarrow> (thrown + ChatMessage list) \<times> state" where
  "findMessages E sessionId' s =
     (case dbCall E (DbFindMessages sessionId') s of
        (Some error, s') \<Rightarrow> (Inl error, s')
      | (None, s') \<Rightarrow>
          (Inr (sort_key row_createdAt
                  (filter (\<lambda>row. row_sessionId row = sessionId') (chatMessages s'))), s'))"

text \<open>
  \<^verbatim>\<open>createChatMessage\<close>: the new row, with the identifier and the time the store gives it;
  its \<^verbatim>\<open>catch\<close> clause throws on what it caught.
\<close>

definition createChatMessage ::
  "env \<Rightarrow> string \<Rightarrow> string option \<Rightarrow> string option \<Rightarrow> state \<Rightarrow> (thrown + ChatMessage) \<times> state" where
  "createChatMessage E sessionId' userMessage' assistantMessage' s =
     (case dbCall E (DbCreateMessage sessionId' userMessage' assistantMessage') s of
        (Some error, s') \<Rightarrow> (Inl error, s')
      | (None, s') \<Rightarrow>
          (let k = countEvents isDbCall s;
               row = \<lparr> row_id = newRowId E k, row_sessionId = sessionId',
                       row_userMessage = userMessage', row_assistantMessage = assistantMessage',
                       row_createdAt = clock E k, row_updatedAt = clock E k \<rparr>
           in (Inr row, s' \<lparr> chatMessages := chatMessages s' @ [row] \<rparr>)))"

section \<open>The orchestration of a message\<close>

text \<open>
  \<^verbatim>\<open>openai.chat.completions.create({ model: "gpt-4o", messages, tools })\<close> followed by
  \<^verbatim>\<open>response.choices[0]?.message\<close>. The model and the declared tool are the same in every
  call.
\<close>

definition complete ::
  "env \<Rightarrow> ChatMessageItem list \<Rightarrow> state \<Rightarrow> (thrown + completionMessage option) \<times> state" where
  "complete E messages s =
     (chatCompletionsCreate E (countEvents isCompletionCall s), logEvent (CompletionCall messages) s)"

definition enhancedSystemPrompt :: "string \<Rightarrow> string" where
  "enhancedSystemPrompt systemPromptText =
     systemPromptText @
     ''\<newline>\<newline>IMPORTANT: When users ask about products or information in the knowledge base:''
     @ ''\<newline>1. You MUST use the search_knowledge_base tool''
     @ ''\<newline>2. Present ALL products found with their Product IDs clearly''
     @ ''\<newline>3. Structure your response to list each product with:''
     @ ''\<newline>   - Product ID\<newline>   - Product Name\<newline>   - Description''
     @ ''\<newline>   - Any other relevant details\<newline>\<newline>''
     @ ''The search tool will return products in a structured format. ''
     @ ''Make sure to present all of them to the user.''"

definition plainMessage :: "MessageRole \<Rightarrow> string \<Rightarrow> ChatMessageItem" where
  "plainMessage r t =
     \<lparr> role = r, msg_content = Some (Text t), tool_calls = None, tool_call_id = None,
       tool_name = None \<rparr>"

definition toolMessage :: "ToolCall \<Rightarrow> jsonText \<Rightarrow> ChatMessageItem" where
  "toolMessage toolCall result =
     \<lparr> role = Tool, msg_content = Some (ToolText result), tool_calls = None,
       tool_call_id = Some (call_id toolCall), tool_name = Some (fn_name toolCall) \<rparr>"

text \<open>The messages of one stored turn: its user message and its assistant message, when set.\<close>

definition historyOf :: "ChatMessage \<Rightarrow> ChatMessageItem list" where
  "historyOf msg =
     (case row_userMessage msg of
        Some u \<Rightarrow> if u \<noteq> [] then [plainMessage User u] else []
      | None \<Rightarrow> [])
     @ (case row_assistantMessage msg of
          Some a \<Rightarrow> if a \<noteq> [] then [plainMessage Assistant a] else []
        | None \<Rightarrow> [])"

text \<open>\<^verbatim>\<open>/knowledge\s*base|product|information|what\s+do\s+you\s+have|inventory|catalog/i\<close>\<close>

definition rxIntent :: re where
  "rxIntent =
     RAlt (RSeqs [RLit ''knowledge'', rxSpaces, RLit ''base''])
    (RAlt (RLit ''product'')
    (RAlt (RLit ''information'')
    (RAlt (RSeqs [RLit ''what'', rxBlanks, RLit ''do'', rxBlanks, RLit ''you'', rxBlanks,
                  RLit ''have''])
    (RAlt (RLit ''inventory'')
          (RLit ''catalog'')))))"

definition shouldUseSearch :: "string \<Rightarrow> bool" where
  "shouldUseSearch content' = testRe flagI rxIntent content'"

text \<open>\<^verbatim>\<open>text || null\<close> on a text that may be \<^verbatim>\<open>null\<close>.\<close>

definition orNull :: "string option \<Rightarrow> string option" where
  "orNull t = (case t of Some x \<Rightarrow> if x \<noteq> [] then Some x else None | None \<Rightarrow> None)"

text \<open>The answer of \<^verbatim>\<open>addMessage\<close>: the created row with the products.\<close>

definition respond :: "ChatMessage \<Rightarrow> Product list \<Rightarrow> ChatMessageResponse" where
  "respond createdMessage products' =
     \<lparr> msg_id = row_id createdMessage,
       sessionId = row_sessionId createdMessage,
       userMessage = row_userMessage createdMessage,
       assistantMessage = row_assistantMessage createdMessage,
       products = products',
       createdAt = row_createdAt createdMessage,
       updatedAt = row_updatedAt createdMessage \<rparr>"

definition persistTurn ::
  "env \<Rightarrow> string \<Rightarrow> string \<Rightarrow> string option \<Rightarrow> Product list \<Rightarrow> state
     \<Rightarrow> (thrown + ChatMessageResponse) \<times> state" where
  "persistTurn E sessionId' content' assistantText products' s =
     (case createChatMessage E sessionId' (Some content') assistantText s of
        (Inl error, s') \<Rightarrow> (Inl error, s')
      | (Inr createdMessage, s') \<Rightarrow> (Inr (respond createdMessage products'), s'))"

text \<open>
  The branch without requested tool calls whose content matches the intent pattern: the
  forced search, the second completion, and the answer. When the second completion has no
  text the control falls through to the \<^verbatim>\<open>Normal response without tools\<close>.
\<close>

definition forcedToolCall :: "string \<Rightarrow> ToolCall" where
  "forcedToolCall content' =
     \<lparr> call_id = ''forced-search'', fn_name = ''search_knowledge_base'',
       fn_arguments = JSON_stringify (JObj [(''query'', JStr content')]) \<rparr>"

definition forcedSearch ::
  "env \<Rightarrow> string \<Rightarrow> string \<Rightarrow> ChatMessageItem list \<Rightarrow> string option \<Rightarrow> state
     \<Rightarrow> (thrown + ChatMessageResponse) \<times> state" where
  "forcedSearch E sessionId' content' messages assistantContent s =
     (case executeToolCall E (forcedToolCall content') s of
        (Inl error, s1) \<Rightarrow> (Inl error, s1)
      | (Inr searchResult, s1) \<Rightarrow>
          (let allProducts = tr_products searchResult;
               messages' = messages @
                 [\<lparr> role = Assistant, msg_content = None,
                    tool_calls = Some [forcedToolCall content'], tool_call_id = None,
                    tool_name = None \<rparr>,
                  toolMessage (forcedToolCall content') (tr_result searchResult)]
           in case complete E messages' s1 of
                (Inl error, s2) \<Rightarrow> (Inl error, s2)
              | (Inr retryChoice, s2) \<Rightarrow>
                  (case (case retryChoice of Some m \<Rightarrow> orNull (cm_content m) | None \<Rightarrow> None) of
                     Some retryContent \<Rightarrow>
                       persistTurn E sessionId' content' (Some retryContent) allProducts s2
                   | None \<Rightarrow>
                       persistTurn E sessionId' content' (orNull assistantContent) [] s2)))"

text \<open>
  The loop over the requested tool calls: every call is executed, its products are
  accumulated and its result (or, when the execution throws, an error payload) is appended
  as a tool message.
\<close>

fun runToolCalls ::
  "env \<Rightarrow> ToolCall list \<Rightarrow> ChatMessageItem list \<Rightarrow> Product list \<Rightarrow> state
     \<Rightarrow> (ChatMessageItem list \<times> Product list) \<times> state" where
  "runToolCalls E [] messages allProducts s = ((messages, allProducts), s)"
| "runToolCalls E (toolCall # rest) messages allProducts s =
     (case executeToolCall E toolCall s of
        (Inr r, s') \<Rightarrow>
          runToolCalls E rest (messages @ [toolMessage toolCall (tr_result r)])
            (if length (tr_products r) > 0 then allProducts @ tr_products r else allProducts) s'
      | (Inl error, s') \<Rightarrow>
          runToolCalls E rest
            (messages @ [toolMessage toolCall (JSON_stringify (JObj
               [(''error'', JStr (''Failed to execute '' @ fn_name toolCall)),
                (''details'', JStr (messageOr error))]))])
            allProducts s')"

text \<open>The reminder that lists the products found, one line each.\<close>

definition productReminder :: "Product list \<Rightarrow> ChatMessageItem" where
  "productReminder uniqueProducts' =
     plainMessage System
       (''The search found '' @ showNat (length uniqueProducts')
        @ '' products. Make sure to mention all of them in your response:\<newline>''
        @ joinWith ''\<newline>''
            (map (\<lambda>p. ''- Product ID: '' @ productId p @ '', Name: '' @ name p) uniqueProducts'))"

text \<open>
  The products of the answer, from the deduplicated products of the tools and the final
  text: the fallback extraction, then the enrichment.
\<close>

definition reconcileProducts :: "Product list \<Rightarrow> string option \<Rightarrow> Product list" where
  "reconcileProducts uniqueProducts0 finalContent =
     (let uniqueProducts1 =
            (case orNull finalContent of
               Some t \<Rightarrow>
                 if length uniqueProducts0 = 0 \<and> str_includes t ''Product ID''
                 then uniqueProducts0 @ extractProductsFromAssistantMessage t
                 else uniqueProducts0
             | None \<Rightarrow> uniqueProducts0)
      in case orNull finalContent of
           Some t \<Rightarrow>
             if length uniqueProducts1 > 0
             then enrichProducts (extractProductsFromAssistantMessage t) uniqueProducts1
             else uniqueProducts1
         | None \<Rightarrow> uniqueProducts1)"

text \<open>
  The branch with requested tool calls: their execution, the second completion and the
  answer. The tool calls that the second completion requests are only logged.
\<close>

definition toolRound ::
  "env \<Rightarrow> string \<Rightarrow> string \<Rightarrow> ChatMessageItem list \<Rightarrow> string option \<Rightarrow> ToolCall list \<Rightarrow> state
     \<Rightarrow> (thrown + ChatMessageResponse) \<times> state" where
  "toolRound E sessionId' content' messages assistantContent toolCalls s =
     (case runToolCalls E toolCalls
             (messages @ [\<lparr> role = Assistant,
                             msg_content = map_option Text assistantContent,
                             tool_calls = Some toolCalls, tool_call_id = None,
                             tool_name = None \<rparr>]) [] s of
        ((messages', allProducts), s1) \<Rightarrow>
          (let uniqueProducts0 = uniqueProducts allProducts;
               followUpMessages = messages' @
                 (if length uniqueProducts0 > 0 then [productReminder uniqueProducts0] else [])
           in case complete E followUpMessages s1 of
                (Inl error, s2) \<Rightarrow> (Inl error, s2)
              | (Inr None, s2) \<Rightarrow> (Inl (newError ''No follow-up response from OpenAI''), s2)
              | (Inr (Some finalMessage), s2) \<Rightarrow>
                  (let finalContent = cm_content finalMessage
                   in persistTurn E sessionId' content' (orNull finalContent)
                        (reconcileProducts uniqueProducts0 finalContent) s2)))"

text \<open>
  \<^verbatim>\<open>addMessage({ sessionId, content, agentId })\<close>. Its \<^verbatim>\<open>catch\<close> clause logs and throws on what
  it caught, so every \<open>Inl\<close> below is what the function throws.
\<close>

definition addMessage ::
  "env \<Rightarrow> string \<Rightarrow> string \<Rightarrow> string \<Rightarrow> state \<Rightarrow> (thrown + ChatMessageResponse) \<times> state" where
  "addMessage E sessionId' content' agentId s =
     (case findAgent E agentId s of
        (Inl error, s1) \<Rightarrow> (Inl error, s1)
      | (Inr agent, s1) \<Rightarrow>
          (let systemPromptText = (case agent of Some p \<Rightarrow> p
                                   | None \<Rightarrow> ''You are a helpful assistant.'')
           in case findMessages E sessionId' s1 of
                (Inl error, s2) \<Rightarrow> (Inl error, s2)
              | (Inr previousMessages, s2) \<Rightarrow>
                  (let chatHistory = concat (map historyOf previousMessages);
                       messages = [plainMessage System (enhancedSystemPrompt systemPromptText)]
                                  @ chatHistory @ [plainMessage User content']
                   in case complete E messages s2 of
                        (Inl error, s3) \<Rightarrow> (Inl error, s3)
                      | (Inr None, s3) \<Rightarrow> (Inl (newError ''No response from OpenAI''), s3)
                      | (Inr (Some message'), s3) \<Rightarrow>
                          (let assistantContent = cm_content message';
                               toolCalls = (case cm_tool_calls message' of Some tcs \<Rightarrow> tcs
                                            | None \<Rightarrow> [])
                           in if length toolCalls = 0 then
                                (if shouldUseSearch content'
                                 then forcedSearch E sessionId' content' messages
                                        assistantContent s3
                                 else persistTurn E sessionId' content'
                                        (orNull assistantContent) [] s3)
                              else toolRound E sessionId' content' messages assistantContent
                                     toolCalls s3))))"

section \<open>Reading the trace\<close>

text \<open>
  An event that is neither a completion call, nor a tool execution, nor a call of the store:
  what a knowledge search leaves in the trace.
\<close>

definition quiet :: "event \<Rightarrow> bool" where
  "quiet e = (\<not> isCompletionCall e \<and> \<not> isToolExecution e \<and> \<not> isDbCall e)"

text \<open>The events that an action added to the trace of \<open>s\<close> when it ended in \<open>s'\<close>.\<close>

definition newEvents :: "state \<Rightarrow> state \<Rightarrow> event list" where
  "newEvents s s' = drop (length (trace s)) (trace s')"

text \<open>The events after the first completion call of a list of events.\<close>

fun afterCompletion :: "event list \<Rightarrow> event list" where
  "afterCompletion [] = []"
| "afterCompletion (e # es) = (if isCompletionCall e then es else afterCompletion es)"

text \<open>The tool calls executed, in the order of their execution.\<close>

fun executedCalls :: "event list \<Rightarrow> ToolCall list" where
  "executedCalls [] = []"
| "executedCalls (ToolExecution tc # es) = tc # executedCalls es"
| "executedCalls (e # es) = executedCalls es"

text \<open>
  An environment and a state for the concrete runs below: the embedding provider answers
  with a vector, the similarity search with no document, the store never fails and has no
  agent, and the completion provider answers its first call with the text \<open>first\<close> and no
  tool call, its later calls with no text and a request for a search.
\<close>

definition sampleEnv :: env where
  "sampleEnv =
     \<lparr> embeddingsCreate = (\<lambda>k. Inr (Some [1, 2])),
       rpcMatchDocuments = (\<lambda>k. Inr \<lparr> rpc_data = Some [], rpc_error = None \<rparr>),
       chatCompletionsCreate =
         (\<lambda>k. if k = 0 then Inr (Some \<lparr> cm_content = Some ''first'', cm_tool_calls = None \<rparr>)
               else Inr (Some \<lparr> cm_content = None,
                                 cm_tool_calls = Some [\<lparr> call_id = ''call_2'',
                                    fn_name = ''search_knowledge_base'',
                                    fn_arguments = JsonOf (JObj [(''query'', JStr ''more'')]) \<rparr>] \<rparr>)),
       dbFailure = (\<lambda>k. None),
       agentSystemPrompt = (\<lambda>a. None),
       newRowId = (\<lambda>k. ''row-'' @ showNat k),
       clock = (\<lambda>k. int k) \<rparr>"

definition emptyState :: state where
  "emptyState = \<lparr> chatMessages = [], trace = [] \<rparr>"

text \<open>
  A step from \<open>s\<close> to \<open>s'\<close> that leaves the table of chat messages as it is and adds only quiet
  events to the trace.
\<close>

definition quietStep :: "state \<Rightarrow> state \<Rightarrow> bool" where
  "quietStep s s' =
     (chatMessages s' = chatMessages s
      \<and> length (trace s) \<le> length (trace s')
      \<and> take (length (trace s)) (trace s') = trace s
      \<and> list_all quiet (newEvents s s'))"

text \<open>
  The \<^verbatim>\<open>messages\<close> of the first completion call of \<^verbatim>\<open>addMessage\<close> (the system prompt, the
  history of the session, the user content), and the state in which the first completion
  has returned: the two reads of the store and the completion call are in the trace.
\<close>

definition firstMessages :: "env \<Rightarrow> string \<Rightarrow> string \<Rightarrow> string \<Rightarrow> state \<Rightarrow> ChatMessageItem list" where
  "firstMessages E sessionId' content' agentId s =
     [plainMessage System (enhancedSystemPrompt
        (case agentSystemPrompt E agentId of Some p \<Rightarrow> p
         | None \<Rightarrow> ''You are a helpful assistant.''))]
     @ concat (map historyOf (sort_key row_createdAt
         (filter (\<lambda>row. row_sessionId row = sessionId') (chatMessages s))))
     @ [plainMessage User content']"

definition afterFirstCompletion :: "env \<Rightarrow> string \<Rightarrow> string \<Rightarrow> string \<Rightarrow> state \<Rightarrow> state" where
  "afterFirstCompletion E sessionId' content' agentId s =
     logEvent (CompletionCall (firstMessages E sessionId' content' agentId s))
       (logEvent (DbFindMessages sessionId') (logEvent (DbFindAgent agentId) s))"

section \<open>Texts with product blocks\<close>


section \<open>Deduplication by identifier\<close>

lemma findIndex_nonneg_iff: "0 \<le> findIndex P xs \<longleftrightarrow> (\<exists>x \<in> set xs. P x)"
  by (induction xs) (auto simp: Let_def)

lemma findIndex_append_hit:
  "\<exists>x \<in> set xs. P x \<Longrightarrow> findIndex P (xs @ ys) = findIndex P xs"
proof (induction xs)
  case Nil
  then show ?case by simp
next
  case (Cons a xs)
  show ?case
  proof (cases "P a")
    case True
    then show ?thesis by simp
  next
    case False
    with Cons.prems have "\<exists>x \<in> set xs. P x" by auto
    with Cons.IH False show ?thesis by simp
  qed
qed

lemma findIndex_append_miss:
  "\<forall>x \<in> set xs. \<not> P x \<Longrightarrow> P y \<Longrightarrow> findIndex P (xs @ y # ys) = int (length xs)"
  by (induction xs) (auto simp: Let_def)

lemma findIndex_less_length: "findIndex P xs < int (length xs)"
  by (induction xs) (auto simp: Let_def)

lemma snd_enumerate_mem: "ip \<in> set (enumerate n xs) \<Longrightarrow> snd ip \<in> set xs"
  by (induction xs arbitrary: n) auto

text \<open>Appending one record: it survives exactly when its identifier is new.\<close>

lemma uniqueProducts_snoc:
  "uniqueProducts (xs @ [x]) =
     uniqueProducts xs @ (if productId x \<in> productId ` set xs then [] else [x])"
proof -
  have old: "filter (\<lambda>(index, product).
                int index = findIndex (\<lambda>p. productId p = productId product) (xs @ [x]))
              (enumerate 0 xs)
           = filter (\<lambda>(index, product).
                int index = findIndex (\<lambda>p. productId p = productId product) xs)
              (enumerate 0 xs)"
  proof (rule filter_cong[OF refl])
    fix ip assume "ip \<in> set (enumerate 0 xs)"
    then have "snd ip \<in> set xs"
      by (rule snd_enumerate_mem)
    then have "\<exists>q \<in> set xs. productId q = productId (snd ip)" by blast
    then have "findIndex (\<lambda>p. productId p = productId (snd ip)) (xs @ [x])
             = findIndex (\<lambda>p. productId p = productId (snd ip)) xs"
      by (rule findIndex_append_hit)
    then show "(case ip of (index, product) \<Rightarrow>
                 int index = findIndex (\<lambda>p. productId p = productId product) (xs @ [x]))
             = (case ip of (index, product) \<Rightarrow>
                 int index = findIndex (\<lambda>p. productId p = productId product) xs)"
      by (cases ip) simp
  qed
  have new: "(int (length xs) = findIndex (\<lambda>p. productId p = productId x) (xs @ [x]))
           \<longleftrightarrow> productId x \<notin> productId ` set xs"
  proof (cases "productId x \<in> productId ` set xs")
    case True
    then have ex: "\<exists>q \<in> set xs. productId q = productId x" by auto
    have "findIndex (\<lambda>p. productId p = productId x) (xs @ [x])
        = findIndex (\<lambda>p. productId p = productId x) xs"
      using ex by (rule findIndex_append_hit)
    moreover have "findIndex (\<lambda>p. productId p = productId x) xs < int (length xs)"
      by (rule findIndex_less_length)
    ultimately show ?thesis using True by simp
  next
    case False
    then have "\<forall>q \<in> set xs. \<not> productId q = productId x"
      by (metis imageI)
    then have "findIndex (\<lambda>p. productId p = productId x) (xs @ x # []) = int (length xs)"
      by (rule findIndex_append_miss) simp
    with False show ?thesis by simp
  qed
  show ?thesis
    unfolding uniqueProducts_def
    by (simp add: enumerate_append_eq old new)
qed

lemma uniqueProducts_Nil: "uniqueProducts [] = []"
  by (simp add: uniqueProducts_def)

lemma set_uniqueProducts_subset: "set (uniqueProducts xs) \<subseteq> set xs"
  by (induction xs rule: rev_induct) (auto simp: uniqueProducts_Nil uniqueProducts_snoc)

lemma ids_uniqueProducts: "productId ` set (uniqueProducts xs) = productId ` set xs"
  by (induction xs rule: rev_induct) (auto simp: uniqueProducts_Nil uniqueProducts_snoc)

lemma distinct_ids_uniqueProducts: "distinct (map productId (uniqueProducts xs))"
proof (induction xs rule: rev_induct)
  case Nil
  then show ?case by (simp add: uniqueProducts_Nil)
next
  case (snoc x xs)
  have "productId x \<notin> productId ` set xs \<Longrightarrow> productId x \<notin> productId ` set (uniqueProducts xs)"
    by (simp add: ids_uniqueProducts)
  with snoc show ?case by (auto simp: uniqueProducts_snoc)
qed

lemma uniqueProducts_distinct_ids:
  "distinct (map productId xs) \<Longrightarrow> uniqueProducts xs = xs"
  by (induction xs rule: rev_induct) (auto simp: uniqueProducts_Nil uniqueProducts_snoc)

lemma find_append_hit:
  "\<exists>x \<in> set xs. P x \<Longrightarrow> find P (xs @ ys) = find P xs"
  by (induction xs) auto

lemma find_append_miss:
  "\<forall>x \<in> set xs. \<not> P x \<Longrightarrow> find P (xs @ ys) = find P ys"
  by (induction xs) auto

lemma find_uniqueProducts:
  "find (\<lambda>q. productId q = k) (uniqueProducts xs) = find (\<lambda>q. productId q = k) xs"
proof (induction xs rule: rev_induct)
  case Nil
  then show ?case by (simp add: uniqueProducts_Nil)
next
  case (snoc x xs)
  show ?case
  proof (cases "\<exists>q \<in> set xs. productId q = k")
    case True
    then have "\<exists>q \<in> set (uniqueProducts xs). productId q = k"
      using ids_uniqueProducts[of xs] by (metis (no_types, lifting) image_iff)
    then show ?thesis
      using True snoc.IH by (simp add: uniqueProducts_snoc find_append_hit)
  next
    case False
    then have a: "\<forall>q \<in> set xs. \<not> productId q = k" by blast
    then have b: "\<forall>q \<in> set (uniqueProducts xs). \<not> productId q = k"
      using set_uniqueProducts_subset[of xs] by blast
    show ?thesis using a b
      by (auto simp: uniqueProducts_snoc find_append_miss)
  qed
qed

text \<open>
  C2. Deduplication by \<open>productId\<close> is idempotent: deduplicating twice gives the list (hence
  the set) that deduplicating once gives. The result has no two records with one identifier,
  loses no identifier, and for every identifier holds the first record of the input that
  carries it.
\<close>

theorem uniqueProducts_idempotent_first:
  "uniqueProducts (uniqueProducts ps) = uniqueProducts ps
   \<and> set (uniqueProducts (uniqueProducts ps)) = set (uniqueProducts ps)
   \<and> distinct (map productId (uniqueProducts ps))
   \<and> productId ` set (uniqueProducts ps) = productId ` set ps
   \<and> (\<forall>k. find (\<lambda>q. productId q = k) (uniqueProducts ps) = find (\<lambda>q. productId q = k) ps)"
proof -
  have idem: "uniqueProducts (uniqueProducts ps) = uniqueProducts ps"
    by (rule uniqueProducts_distinct_ids) (rule distinct_ids_uniqueProducts)
  show ?thesis
    using idem distinct_ids_uniqueProducts ids_uniqueProducts find_uniqueProducts by simp
qed

section \<open>Reconciliation with the assistant's text\<close>

lemma find_Some_productId:
  "find (\<lambda>ap. productId ap = k) aps = Some ap \<Longrightarrow> productId ap = k"
  by (induction aps) (auto split: if_splits)

text \<open>
  C3. Reconciliation is monotone. Let \<open>product\<close> be a record of the documents and \<open>ap\<close> the
  record of the assistant's text that the merge finds for its identifier. The merged record
  keeps the identifier, keeps every field of \<open>product\<close> that is not the placeholder
  (\<open>Product {productId}\<close> for the name, \<open>No description available\<close> for the description), and
  differs from \<open>product\<close> in a field only where that field of \<open>product\<close> is the placeholder
  and the field of \<open>ap\<close> is not; there it takes the value of \<open>ap\<close>.
\<close>

theorem enrichProduct_monotone:
  assumes "find (\<lambda>ap. productId ap = productId product) assistantProducts = Some ap"
  shows "productId ap = productId product
    \<and> productId (enrichProduct assistantProducts product) = productId product
    \<and> (name product \<noteq> ''Product '' @ productId product
         \<longrightarrow> name (enrichProduct assistantProducts product) = name product)
    \<and> (description product \<noteq> ''No description available''
         \<longrightarrow> description (enrichProduct assistantProducts product) = description product)
    \<and> (name (enrichProduct assistantProducts product) \<noteq> name product
         \<longrightarrow> name product = ''Product '' @ productId product
             \<and> name ap \<noteq> ''Product '' @ productId product
             \<and> name (enrichProduct assistantProducts product) = name ap)
    \<and> (description (enrichProduct assistantProducts product) \<noteq> description product
         \<longrightarrow> description product = ''No description available''
             \<and> description ap \<noteq> ''No description available''
             \<and> description (enrichProduct assistantProducts product) = description ap)
    \<and> (name product = ''Product '' @ productId product
           \<and> name ap \<noteq> ''Product '' @ productId product
         \<longrightarrow> name (enrichProduct assistantProducts product) = name ap)
    \<and> (description product = ''No description available''
           \<and> description ap \<noteq> ''No description available''
         \<longrightarrow> description (enrichProduct assistantProducts product) = description ap)"
proof -
  have same: "productId ap = productId product"
    using assms by (rule find_Some_productId)
  show ?thesis
    using assms same by (simp add: enrichProduct_def)
qed

theorem enrichProduct_monotone_witness:
  "find (\<lambda>ap. productId ap = ''42'')
     [\<lparr>name = ''Widget'', productId = ''42'', description = ''No description available''\<rparr>]
     = Some \<lparr>name = ''Widget'', productId = ''42'', description = ''No description available''\<rparr>
   \<and> enrichProduct
       [\<lparr>name = ''Widget'', productId = ''42'', description = ''No description available''\<rparr>]
       \<lparr>name = ''Product 42'', productId = ''42'', description = ''A blue widget''\<rparr>
     = \<lparr>name = ''Widget'', productId = ''42'', description = ''A blue widget''\<rparr>"
proof -
  let ?ap = "\<lparr>name = ''Widget'', productId = ''42'', description = ''No description available''\<rparr>"
  let ?p = "\<lparr>name = ''Product 42'', productId = ''42'', description = ''A blue widget''\<rparr>"
  have f: "find (\<lambda>ap. productId ap = productId ?p) [?ap] = Some ?ap" by simp
  have "name (enrichProduct [?ap] ?p) = name ?ap
      \<and> description (enrichProduct [?ap] ?p) = description ?p
      \<and> productId (enrichProduct [?ap] ?p) = productId ?p"
    using enrichProduct_monotone[OF f] by simp
  then have "enrichProduct [?ap] ?p = \<lparr>name = ''Widget'', productId = ''42'', description = ''A blue widget''\<rparr>"
    by (cases "enrichProduct [?ap] ?p") simp
  then show ?thesis by simp
qed

section \<open>The retry wrapper\<close>

lemma withRetry_loop_fail_step:
  assumes "i < maxRetries - 1" "outcomes (calls p) = Inl e" "\<not> isConfigurationError e"
  shows "withRetry_loop (probeFn outcomes) probeSleep maxRetries baseDelay i le p
       = withRetry_loop (probeFn outcomes) probeSleep maxRetries baseDelay (i + 1) (Some e)
           (p \<lparr> calls := Suc (calls p), waits := waits p @ [baseDelay * 2 ^ nat i] \<rparr>)"
  apply (rule trans[OF withRetry_loop.simps])
  using assms by (simp add: probeFn_def probeSleep_def)

lemma withRetry_loop_retries:
  assumes "0 \<le> i" "i + int m \<le> maxRetries - 1"
    and "\<forall>j < m. \<exists>e. outcomes (calls p + j) = Inl e \<and> \<not> isConfigurationError e"
  shows "withRetry_loop (probeFn outcomes) probeSleep maxRetries baseDelay i le p
       = withRetry_loop (probeFn outcomes) probeSleep maxRetries baseDelay (i + int m)
           (if m = 0 then le else Some (projl (outcomes (calls p + m - 1))))
           (p \<lparr> calls := calls p + m,
                waits := waits p @ map (\<lambda>j. baseDelay * 2 ^ (nat i + j)) [0..<m] \<rparr>)"
  using assms
proof (induction m arbitrary: i le p)
  case 0
  then show ?case by simp
next
  case (Suc m)
  from Suc.prems(3) obtain e where e: "outcomes (calls p) = Inl e" "\<not> isConfigurationError e"
    by (metis add.right_neutral zero_less_Suc)
  let ?p = "p \<lparr> calls := Suc (calls p), waits := waits p @ [baseDelay * 2 ^ nat i] \<rparr>"
  have step: "withRetry_loop (probeFn outcomes) probeSleep maxRetries baseDelay i le p
       = withRetry_loop (probeFn outcomes) probeSleep maxRetries baseDelay (i + 1) (Some e) ?p"
    using Suc.prems(2) e by (intro withRetry_loop_fail_step) auto
  have rest: "\<forall>j < m. \<exists>e. outcomes (calls ?p + j) = Inl e \<and> \<not> isConfigurationError e"
  proof (intro allI impI)
    fix j assume "j < m"
    then have "Suc j < Suc m" by simp
    with Suc.prems(3) have "\<exists>e. outcomes (calls p + Suc j) = Inl e \<and> \<not> isConfigurationError e"
      by blast
    then show "\<exists>e. outcomes (calls ?p + j) = Inl e \<and> \<not> isConfigurationError e" by simp
  qed
  have ih: "withRetry_loop (probeFn outcomes) probeSleep maxRetries baseDelay (i + 1) (Some e) ?p
       = withRetry_loop (probeFn outcomes) probeSleep maxRetries baseDelay (i + 1 + int m)
           (if m = 0 then Some e else Some (projl (outcomes (calls ?p + m - 1))))
           (?p \<lparr> calls := calls ?p + m,
             waits := waits ?p @ map (\<lambda>j. baseDelay * 2 ^ (nat (i + 1) + j)) [0..<m] \<rparr>)"
    using Suc.prems(1,2) rest by (intro Suc.IH) auto
  have le_eq: "(if m = 0 then Some e else Some (projl (outcomes (calls ?p + m - 1))))
             = Some (projl (outcomes (calls p + Suc m - 1)))"
    using e by (cases m) auto
  have nat_eq: "nat (i + 1) = Suc (nat i)" using Suc.prems(1) by simp
  have "map (\<lambda>j. baseDelay * 2 ^ (nat i + j)) [0..<Suc m]
      = (baseDelay * 2 ^ nat i) # map (\<lambda>j. baseDelay * 2 ^ (Suc (nat i) + j)) [0..<m]"
    by (simp add: upt_rec[of 0 "Suc m"] map_Suc_upt[symmetric] del: upt_Suc)
  then have waits_eq: "waits ?p @ map (\<lambda>j. baseDelay * 2 ^ (nat (i + 1) + j)) [0..<m]
                = waits p @ map (\<lambda>j. baseDelay * 2 ^ (nat i + j)) [0..<Suc m]"
    unfolding nat_eq by simp
  show ?case
    unfolding step ih le_eq using waits_eq by (simp add: algebra_simps)
qed

lemma withRetry_loop_success_step:
  assumes "i < maxRetries" "outcomes (calls p) = Inr v"
  shows "withRetry_loop (probeFn outcomes) probeSleep maxRetries baseDelay i le p
       = (Inr v, p \<lparr> calls := Suc (calls p) \<rparr>)"
  apply (rule trans[OF withRetry_loop.simps])
  using assms by (simp add: probeFn_def)

lemma withRetry_loop_config_step:
  assumes "i < maxRetries" "outcomes (calls p) = Inl e" "isConfigurationError e"
  shows "withRetry_loop (probeFn outcomes) probeSleep maxRetries baseDelay i le p
       = (Inl e, p \<lparr> calls := Suc (calls p) \<rparr>)"
  apply (rule trans[OF withRetry_loop.simps])
  using assms by (simp add: probeFn_def)

lemma withRetry_loop_last_step:
  assumes "i = maxRetries - 1" "outcomes (calls p) = Inl e" "\<not> isConfigurationError e"
  shows "withRetry_loop (probeFn outcomes) probeSleep maxRetries baseDelay i le p
       = (Inl (if truthyThrown e then e else newError ''Failed after retries''),
          p \<lparr> calls := Suc (calls p) \<rparr>)"
proof -
  have exit: "withRetry_loop (probeFn outcomes) probeSleep maxRetries baseDelay maxRetries (Some e)
                (p \<lparr> calls := Suc (calls p) \<rparr>)
            = (Inl (if truthyThrown e then e else newError ''Failed after retries''),
               p \<lparr> calls := Suc (calls p) \<rparr>)"
    by (rule trans[OF withRetry_loop.simps]) simp
  show ?thesis
    apply (rule trans[OF withRetry_loop.simps])
    using assms exit by (simp add: probeFn_def)
qed

lemma withRetry_none: 
  "maxRetries \<le> 0 \<Longrightarrow> withRetry fn sl maxRetries baseDelay s = (Inl (newError ''Failed after retries''), s)"
  unfolding withRetry_def
  apply (rule trans[OF withRetry_loop.simps])
  apply simp
  done

text \<open>
  C4, as the code has it. The retry wrapper, run on an operation whose \<open>k\<close>-th call has the
  outcome \<open>outcomes k\<close>. A configuration error is an \<^verbatim>\<open>Error\<close> object whose message includes
  \<open>does not exist\<close> or \<open>Missing Supabase\<close>; every other thrown value is retried, also a value
  that is not an \<^verbatim>\<open>Error\<close> object and carries such a message. (1) When the first \<open>n - 1\<close>
  calls fail with values that are not configuration errors, the \<open>n\<close>-th call returns \<open>v\<close> and
  \<open>maxRetries \<ge> n\<close>, the wrapper returns \<open>v\<close> after exactly \<open>n\<close> calls. (2) When a call fails
  with a configuration error the wrapper fails with that error at once: after \<open>k\<close> retried
  failures it has made \<open>k + 1\<close> calls, hence exactly one when the first call fails so.
  (3) When all \<open>maxRetries \<ge> 1\<close> calls fail, the wrapper fails after \<open>maxRetries\<close> calls: with
  the value that the last call threw when that value is truthy, and with
  \<^verbatim>\<open>new Error('Failed after retries')\<close> when it is falsy (\<^verbatim>\<open>null\<close>, \<^verbatim>\<open>undefined\<close>, \<open>0\<close>, the
  empty string). (4) When \<open>maxRetries \<le> 0\<close> the wrapper makes no call and fails with
  \<^verbatim>\<open>new Error('Failed after retries')\<close>. In all cases the wait after the failed attempt of
  index \<open>i\<close> (counted from \<open>0\<close>), before the next attempt, is \<open>baseDelay * 2 ^ i\<close>, and there is
  no wait after the last attempt.
\<close>

theorem withRetry_contract:
  "(1 \<le> n \<and> int n \<le> maxRetries
      \<and> (\<forall>j < n - 1. \<exists>e. outcomes j = Inl e \<and> \<not> isConfigurationError e)
      \<and> outcomes (n - 1) = Inr v
    \<longrightarrow> withRetry (probeFn outcomes) probeSleep maxRetries baseDelay probe0
        = (Inr v, \<lparr> calls = n, waits = map (\<lambda>i. baseDelay * 2 ^ i) [0..<n - 1] \<rparr>))
   \<and> (int k < maxRetries
      \<and> (\<forall>j < k. \<exists>e. outcomes j = Inl e \<and> \<not> isConfigurationError e)
      \<and> outcomes k = Inl err \<and> isConfigurationError err
    \<longrightarrow> withRetry (probeFn outcomes) probeSleep maxRetries baseDelay probe0
        = (Inl err, \<lparr> calls = Suc k, waits = map (\<lambda>i. baseDelay * 2 ^ i) [0..<k] \<rparr>)
      \<and> isError err)
   \<and> (1 \<le> maxRetries
      \<and> (\<forall>j < nat maxRetries. \<exists>e. outcomes j = Inl e \<and> \<not> isConfigurationError e)
      \<and> outcomes (nat maxRetries - 1) = Inl last'
    \<longrightarrow> withRetry (probeFn outcomes) probeSleep maxRetries baseDelay probe0
        = (Inl (if truthyThrown last' then last' else newError ''Failed after retries''),
           \<lparr> calls = nat maxRetries,
             waits = map (\<lambda>i. baseDelay * 2 ^ i) [0..<nat maxRetries - 1] \<rparr>))
   \<and> (maxRetries \<le> 0
    \<longrightarrow> withRetry (probeFn outcomes) probeSleep maxRetries baseDelay probe0
        = (Inl (newError ''Failed after retries''), probe0))"
proof (intro conjI impI)
  assume a: "1 \<le> n \<and> int n \<le> maxRetries
      \<and> (\<forall>j < n - 1. \<exists>e. outcomes j = Inl e \<and> \<not> isConfigurationError e)
      \<and> outcomes (n - 1) = Inr v"
  have "withRetry_loop (probeFn outcomes) probeSleep maxRetries baseDelay 0 None probe0
      = withRetry_loop (probeFn outcomes) probeSleep maxRetries baseDelay (0 + int (n - 1))
          (if n - 1 = 0 then None else Some (projl (outcomes (calls probe0 + (n - 1) - 1))))
          (probe0 \<lparr> calls := calls probe0 + (n - 1),
               waits := waits probe0 @ map (\<lambda>j. baseDelay * 2 ^ (nat 0 + j)) [0..<n - 1] \<rparr>)"
    using a by (intro withRetry_loop_retries) (auto simp: probe0_def)
  also have "\<dots> = (Inr v, \<lparr> calls = n, waits = map (\<lambda>i. baseDelay * 2 ^ i) [0..<n - 1] \<rparr>)"
    using a by (subst withRetry_loop_success_step[where v = v]) (auto simp: probe0_def)
  finally show "withRetry (probeFn outcomes) probeSleep maxRetries baseDelay probe0
        = (Inr v, \<lparr> calls = n, waits = map (\<lambda>i. baseDelay * 2 ^ i) [0..<n - 1] \<rparr>)"
    by (simp add: withRetry_def)
next
  assume a: "int k < maxRetries
      \<and> (\<forall>j < k. \<exists>e. outcomes j = Inl e \<and> \<not> isConfigurationError e)
      \<and> outcomes k = Inl err \<and> isConfigurationError err"
  have "withRetry_loop (probeFn outcomes) probeSleep maxRetries baseDelay 0 None probe0
      = withRetry_loop (probeFn outcomes) probeSleep maxRetries baseDelay (0 + int k)
          (if k = 0 then None else Some (projl (outcomes (calls probe0 + k - 1))))
          (probe0 \<lparr> calls := calls probe0 + k,
               waits := waits probe0 @ map (\<lambda>j. baseDelay * 2 ^ (nat 0 + j)) [0..<k] \<rparr>)"
    using a by (intro withRetry_loop_retries) (auto simp: probe0_def)
  also have "\<dots> = (Inl err, \<lparr> calls = Suc k, waits = map (\<lambda>i. baseDelay * 2 ^ i) [0..<k] \<rparr>)"
    using a by (subst withRetry_loop_config_step[where e = err]) (auto simp: probe0_def)
  finally show "withRetry (probeFn outcomes) probeSleep maxRetries baseDelay probe0
        = (Inl err, \<lparr> calls = Suc k, waits = map (\<lambda>i. baseDelay * 2 ^ i) [0..<k] \<rparr>)"
    by (simp add: withRetry_def)
next
  assume "int k < maxRetries
      \<and> (\<forall>j < k. \<exists>e. outcomes j = Inl e \<and> \<not> isConfigurationError e)
      \<and> outcomes k = Inl err \<and> isConfigurationError err"
  then show "isError err" by (cases err) auto
next
  assume a: "1 \<le> maxRetries
      \<and> (\<forall>j < nat maxRetries. \<exists>e. outcomes j = Inl e \<and> \<not> isConfigurationError e)
      \<and> outcomes (nat maxRetries - 1) = Inl last'"
  define m where "m = nat maxRetries - 1"
  have m: "int m = maxRetries - 1" "nat maxRetries = Suc m" using a by (auto simp: m_def)
  have notc: "\<not> isConfigurationError last'"
  proof -
    have "nat maxRetries - 1 < nat maxRetries" using a by auto
    with a obtain e where "outcomes (nat maxRetries - 1) = Inl e" "\<not> isConfigurationError e"
      by blast
    with a show ?thesis by simp
  qed
  have "withRetry_loop (probeFn outcomes) probeSleep maxRetries baseDelay 0 None probe0
      = withRetry_loop (probeFn outcomes) probeSleep maxRetries baseDelay (0 + int m)
          (if m = 0 then None else Some (projl (outcomes (calls probe0 + m - 1))))
          (probe0 \<lparr> calls := calls probe0 + m,
               waits := waits probe0 @ map (\<lambda>j. baseDelay * 2 ^ (nat 0 + j)) [0..<m] \<rparr>)"
    using a m by (intro withRetry_loop_retries) (auto simp: probe0_def)
  also have "\<dots> = (Inl (if truthyThrown last' then last' else newError ''Failed after retries''),
                   \<lparr> calls = Suc m, waits = map (\<lambda>i. baseDelay * 2 ^ i) [0..<m] \<rparr>)"
  proof -
    let ?p = "probe0 \<lparr> calls := calls probe0 + m,
               waits := waits probe0 @ map (\<lambda>j. baseDelay * 2 ^ (nat 0 + j)) [0..<m] \<rparr>"
    have om: "outcomes (calls ?p) = Inl last'"
      using a by (simp add: probe0_def m_def)
    have im: "0 + int m = maxRetries - 1" using m(1) by simp
    have "withRetry_loop (probeFn outcomes) probeSleep maxRetries baseDelay (0 + int m)
            (if m = 0 then None else Some (projl (outcomes (calls probe0 + m - 1)))) ?p
        = (Inl (if truthyThrown last' then last' else newError ''Failed after retries''),
           ?p \<lparr> calls := Suc (calls ?p) \<rparr>)"
      using im om notc by (rule withRetry_loop_last_step)
    then show ?thesis by (simp add: probe0_def)
  qed
  finally have "withRetry (probeFn outcomes) probeSleep maxRetries baseDelay probe0
        = (Inl (if truthyThrown last' then last' else newError ''Failed after retries''),
           \<lparr> calls = Suc m, waits = map (\<lambda>i. baseDelay * 2 ^ i) [0..<m] \<rparr>)"
    by (simp add: withRetry_def)
  moreover have "Suc m = nat maxRetries" "m = nat maxRetries - 1"
    using m(2) by (simp_all add: m_def)
  ultimately show "withRetry (probeFn outcomes) probeSleep maxRetries baseDelay probe0
        = (Inl (if truthyThrown last' then last' else newError ''Failed after retries''),
           \<lparr> calls = nat maxRetries,
             waits = map (\<lambda>i. baseDelay * 2 ^ i) [0..<nat maxRetries - 1] \<rparr>)"
    by simp
next
  assume "maxRetries \<le> 0"
  then show "withRetry (probeFn outcomes) probeSleep maxRetries baseDelay probe0
        = (Inl (newError ''Failed after retries''), probe0)"
    by (simp add: withRetry_def withRetry_loop.simps[of _ _ maxRetries _ 0])
qed

lemma upt_3: "[0..<3] = [0, 1, 2]" "[0..<2] = [0, 1]"
  by (simp_all add: upt_rec)

text \<open>
  An operation that always rejects with \<^verbatim>\<open>null\<close> ends in \<^verbatim>\<open>new Error('Failed after retries')\<close>,
  not in the value it threw last; an operation that always rejects with an object that is
  not an \<^verbatim>\<open>Error\<close> and whose message has the marker \<open>does not exist\<close> is called three times.
\<close>

theorem withRetry_falsy_counterexample:
  "withRetry (probeFn (\<lambda>k. Inl (NonError (Some JNull)) :: thrown + nat)) probeSleep 3 1000 probe0
     = (Inl (newError ''Failed after retries''), \<lparr> calls = 3, waits = [1000, 2000] \<rparr>)
   \<and> withRetry (probeFn (\<lambda>k. Inl (NonError (Some (JObj
          [(''message'', JStr ''relation does not exist'')]))) :: thrown + nat))
        probeSleep 3 1000 probe0
     = (Inl (NonError (Some (JObj [(''message'', JStr ''relation does not exist'')]))),
        \<lparr> calls = 3, waits = [1000, 2000] \<rparr>)"
  by (simp add: withRetry_def withRetry_loop.simps probeFn_def probeSleep_def probe0_def)

theorem withRetry_contract_witness:
  "withRetry (probeFn (\<lambda>k. if k < 2 then Inl (newError ''fetch failed'') else Inr (5::nat)))
      probeSleep 3 1000 probe0
     = (Inr 5, \<lparr> calls = 3, waits = [1000, 2000] \<rparr>)
   \<and> withRetry (probeFn (\<lambda>k. Inl (newError ''function match_documents does not exist'') :: thrown + nat))
      probeSleep 3 1000 probe0
     = (Inl (newError ''function match_documents does not exist''), \<lparr> calls = 1, waits = [] \<rparr>)
   \<and> withRetry (probeFn (\<lambda>k. Inl (newError ''fetch failed'') :: thrown + nat))
      probeSleep 3 1000 probe0
     = (Inl (newError ''fetch failed''), \<lparr> calls = 3, waits = [1000, 2000] \<rparr>)
   \<and> withRetry (probeFn (\<lambda>k. Inl (NonError None) :: thrown + nat))
      probeSleep 3 1000 probe0
     = (Inl (newError ''Failed after retries''), \<lparr> calls = 3, waits = [1000, 2000] \<rparr>)
   \<and> withRetry (probeFn (\<lambda>k. Inr 5 :: thrown + nat)) probeSleep 0 1000 probe0
     = (Inl (newError ''Failed after retries''), probe0)"
proof (intro conjI)
  let ?o1 = "\<lambda>k::nat. if k < 2 then Inl (newError ''fetch failed'') else Inr (5::nat)"
  have nc: "\<not> isConfigurationError (newError ''fetch failed'')"
    by (simp add: newError_def)
  have h1: "1 \<le> (3::nat) \<and> int 3 \<le> 3
      \<and> (\<forall>j < 3 - 1. \<exists>e. ?o1 j = Inl e \<and> \<not> isConfigurationError e)
      \<and> ?o1 (3 - 1) = Inr 5"
    using nc by simp
  show "withRetry (probeFn ?o1) probeSleep 3 1000 probe0
     = (Inr 5, \<lparr> calls = 3, waits = [1000, 2000] \<rparr>)"
    using withRetry_contract[where n = 3 and maxRetries = 3 and outcomes = ?o1 and v = 5
        and baseDelay = 1000, THEN conjunct1, rule_format, OF h1]
    by (simp add: upt_3)
next
  let ?o2 = "\<lambda>k::nat. Inl (newError ''function match_documents does not exist'') :: thrown + nat"
  have c: "isConfigurationError (newError ''function match_documents does not exist'')"
    by (simp add: newError_def)
  have h2: "int 0 < 3
      \<and> (\<forall>j < 0. \<exists>e. ?o2 j = Inl e \<and> \<not> isConfigurationError e)
      \<and> ?o2 0 = Inl (newError ''function match_documents does not exist'')
      \<and> isConfigurationError (newError ''function match_documents does not exist'')"
    using c by simp
  show "withRetry (probeFn ?o2) probeSleep 3 1000 probe0
     = (Inl (newError ''function match_documents does not exist''), \<lparr> calls = 1, waits = [] \<rparr>)"
    using withRetry_contract[where k = 0 and maxRetries = 3 and outcomes = ?o2
        and err = "newError ''function match_documents does not exist''"
        and baseDelay = 1000, THEN conjunct2, THEN conjunct1, rule_format, OF h2]
    by simp
next
  let ?o3 = "\<lambda>k::nat. Inl (newError ''fetch failed'') :: thrown + nat"
  have nc: "\<not> isConfigurationError (newError ''fetch failed'')"
    by (simp add: newError_def)
  have h3: "1 \<le> (3::int)
      \<and> (\<forall>j < nat 3. \<exists>e. ?o3 j = Inl e \<and> \<not> isConfigurationError e)
      \<and> ?o3 (nat 3 - 1) = Inl (newError ''fetch failed'')"
    using nc by (simp add: newError_def)
  show "withRetry (probeFn ?o3) probeSleep 3 1000 probe0
     = (Inl (newError ''fetch failed''), \<lparr> calls = 3, waits = [1000, 2000] \<rparr>)"
    using withRetry_contract[where maxRetries = 3 and outcomes = ?o3
        and last' = "newError ''fetch failed''"
        and baseDelay = 1000, THEN conjunct2, THEN conjunct2, THEN conjunct1, rule_format, OF h3]
    by (simp add: upt_3 newError_def)
next
  let ?o4 = "\<lambda>k::nat. Inl (NonError None) :: thrown + nat"
  have h4: "1 \<le> (3::int)
      \<and> (\<forall>j < nat 3. \<exists>e. ?o4 j = Inl e \<and> \<not> isConfigurationError e)
      \<and> ?o4 (nat 3 - 1) = Inl (NonError None)"
    by simp
  show "withRetry (probeFn ?o4) probeSleep 3 1000 probe0
     = (Inl (newError ''Failed after retries''), \<lparr> calls = 3, waits = [1000, 2000] \<rparr>)"
    using withRetry_contract[where maxRetries = 3 and outcomes = ?o4
        and last' = "NonError None"
        and baseDelay = 1000, THEN conjunct2, THEN conjunct2, THEN conjunct1, rule_format, OF h4]
    by (simp add: upt_3)
next
  show "withRetry (probeFn (\<lambda>k. Inr 5 :: thrown + nat)) probeSleep 0 1000 probe0
     = (Inl (newError ''Failed after retries''), probe0)"
    using withRetry_contract[where maxRetries = 0 and outcomes = "\<lambda>k. Inr 5 :: thrown + nat"
        and baseDelay = 1000, THEN conjunct2, THEN conjunct2, THEN conjunct2]
    by simp
qed
section \<open>The tool invoker\<close>

lemma searchFailure_shape:
  "\<exists>payload. tr_result (searchFailure e) = JsonOf payload
      \<and> getProp payload ''error'' = Some (JStr ''Failed to search knowledge base'')
      \<and> getProp payload ''message'' = Some (JStr (messageOr e))"
  by (simp add: searchFailure_def Let_def JSON_stringify_def)

lemma searchFailure_products: "tr_products (searchFailure e) = []"
  by (simp add: searchFailure_def Let_def)

lemma noDocuments_shape:
  "\<exists>payload. tr_result noDocuments = JsonOf payload \<and> getProp payload ''error'' = None"
  by (simp add: noDocuments_def JSON_stringify_def)

lemma searchSuccess_shape:
  "\<exists>payload. tr_result (searchSuccess docs) = JsonOf payload \<and> getProp payload ''error'' = None"
  by (simp add: searchSuccess_def Let_def JSON_stringify_def)

lemma unknownTool_shape:
  "tr_result (unknownTool n) = JsonOf (JObj [(''error'', JStr (''Unknown tool: '' @ n))])
   \<and> tr_products (unknownTool n) = []"
  by (simp add: unknownTool_def JSON_stringify_def)

text \<open>
  C5, as the code has it. On a tool call whose arguments are JSON, \<^verbatim>\<open>executeToolCall\<close> does
  not throw: it returns a result whose text is JSON, and a result whose payload has an
  \<open>error\<close> carries no products. For a tool name other than \<^verbatim>\<open>search_knowledge_base\<close> the
  result is the \<open>Unknown tool\<close> payload with no products. In the search case, arguments that
  are \<^verbatim>\<open>null\<close> give the error payload of the \<^verbatim>\<open>TypeError\<close> with no products, and so does
  whatever \<^verbatim>\<open>withRetry\<close> throws in the end (a failure of the embedding, of the backend, or
  the exhaustion of the retries): the payload has the error's message. On arguments that
  are not JSON the function throws the \<^verbatim>\<open>SyntaxError\<close> of \<^verbatim>\<open>JSON.parse\<close>, whatever the tool
  name; the loop of the orchestrator over the requested tool calls catches it, appends the
  tool message \<open>Failed to execute\<close> with the error's message, leaves the products as they
  are and goes on with the next call.
\<close>

theorem executeToolCall_total_on_json:
  "(fn_arguments tc = JsonOf args \<longrightarrow>
      (\<exists>r s' payload. executeToolCall E tc s = (Inr r, s') \<and> tr_result r = JsonOf payload
         \<and> (getProp payload ''error'' \<noteq> None \<longrightarrow> tr_products r = [])
         \<and> (fn_name tc \<noteq> ''search_knowledge_base'' \<longrightarrow>
               payload = JObj [(''error'', JStr (''Unknown tool: '' @ fn_name tc))]
               \<and> tr_products r = [])
         \<and> (fn_name tc = ''search_knowledge_base'' \<and> args = JNull \<longrightarrow>
               r = searchFailure nullArguments
               \<and> getProp payload ''error'' = Some (JStr ''Failed to search knowledge base'')
               \<and> getProp payload ''message'' = Some (JStr (messageOr nullArguments))
               \<and> tr_products r = [])
         \<and> (fn_name tc = ''search_knowledge_base'' \<and> args \<noteq> JNull \<longrightarrow>
               (\<forall>error. fst (withRetry (searchSupabaseEmbedding E (getProp args ''query'')) sleep
                              3 1000 (logEvent (ToolExecution tc) s)) = Inl error
                  \<longrightarrow> r = searchFailure error
                      \<and> getProp payload ''error'' = Some (JStr ''Failed to search knowledge base'')
                      \<and> getProp payload ''message'' = Some (JStr (messageOr error))
                      \<and> tr_products r = []))))
   \<and> (fn_arguments tc = NotJson t m \<longrightarrow>
        executeToolCall E tc s
          = (Inl (Error m (''SyntaxError: '' @ m) None), logEvent (ToolExecution tc) s)
        \<and> runToolCalls E (tc # rest) messages allProducts s
          = runToolCalls E rest
              (messages @ [toolMessage tc (JSON_stringify (JObj
                 [(''error'', JStr (''Failed to execute '' @ fn_name tc)),
                  (''details'', JStr m)]))])
              allProducts (logEvent (ToolExecution tc) s))"
proof (intro conjI impI)
  assume a: "fn_arguments tc = JsonOf args"
  let ?s0 = "logEvent (ToolExecution tc) s"
  let ?w = "withRetry (searchSupabaseEmbedding E (getProp args ''query'')) sleep 3 1000 ?s0"
  show "\<exists>r s' payload. executeToolCall E tc s = (Inr r, s') \<and> tr_result r = JsonOf payload
         \<and> (getProp payload ''error'' \<noteq> None \<longrightarrow> tr_products r = [])
         \<and> (fn_name tc \<noteq> ''search_knowledge_base'' \<longrightarrow>
               payload = JObj [(''error'', JStr (''Unknown tool: '' @ fn_name tc))]
               \<and> tr_products r = [])
         \<and> (fn_name tc = ''search_knowledge_base'' \<and> args = JNull \<longrightarrow>
               r = searchFailure nullArguments
               \<and> getProp payload ''error'' = Some (JStr ''Failed to search knowledge base'')
               \<and> getProp payload ''message'' = Some (JStr (messageOr nullArguments))
               \<and> tr_products r = [])
         \<and> (fn_name tc = ''search_knowledge_base'' \<and> args \<noteq> JNull \<longrightarrow>
               (\<forall>error. fst ?w = Inl error
                  \<longrightarrow> r = searchFailure error
                      \<and> getProp payload ''error'' = Some (JStr ''Failed to search knowledge base'')
                      \<and> getProp payload ''message'' = Some (JStr (messageOr error))
                      \<and> tr_products r = []))"
  proof (cases "fn_name tc = ''search_knowledge_base''")
    case False
    then have "executeToolCall E tc s = (Inr (unknownTool (fn_name tc)), ?s0)"
      using a by (simp add: executeToolCall_def JSON_parse_def)
    with False unknownTool_shape[of "fn_name tc"] show ?thesis by simp
  next
    case True
    note isSearch = True
    show ?thesis
    proof (cases "args = JNull")
      case True
      have "executeToolCall E tc s = (Inr (searchFailure nullArguments), ?s0)"
        using True \<open>fn_name tc = ''search_knowledge_base''\<close> a
        by (simp add: executeToolCall_def JSON_parse_def)
      with True isSearch searchFailure_shape[of nullArguments]
        searchFailure_products[of nullArguments] show ?thesis
        by auto
    next
      case False
      obtain res s1 where w: "?w = (res, s1)" by (cases ?w)
      show ?thesis
      proof (cases res)
        case (Inl error)
        have "executeToolCall E tc s = (Inr (searchFailure error), s1)"
          using Inl w False \<open>fn_name tc = ''search_knowledge_base''\<close> a
          by (simp add: executeToolCall_def JSON_parse_def)
        with Inl w False isSearch searchFailure_shape[of error] searchFailure_products[of error]
        show ?thesis by auto
      next
        case (Inr docs)
        have "executeToolCall E tc s
            = (Inr (if length docs = 0 then noDocuments else searchSuccess docs), s1)"
          using Inr w False \<open>fn_name tc = ''search_knowledge_base''\<close> a
          by (simp add: executeToolCall_def JSON_parse_def)
        with Inr w False isSearch noDocuments_shape searchSuccess_shape[of docs] show ?thesis
          by auto
      qed
    qed
  qed
next
  assume n: "fn_arguments tc = NotJson t m"
  then show e: "executeToolCall E tc s
          = (Inl (Error m (''SyntaxError: '' @ m) None), logEvent (ToolExecution tc) s)"
    by (simp add: executeToolCall_def JSON_parse_def)
  show "runToolCalls E (tc # rest) messages allProducts s
          = runToolCalls E rest
              (messages @ [toolMessage tc (JSON_stringify (JObj
                 [(''error'', JStr (''Failed to execute '' @ fn_name tc)),
                  (''details'', JStr m)]))])
              allProducts (logEvent (ToolExecution tc) s)"
    by (simp add: e)
qed

text \<open>
  The empty text is not JSON: \<^verbatim>\<open>JSON.parse('')\<close> throws the \<^verbatim>\<open>SyntaxError\<close>
  \<open>Unexpected end of JSON input\<close>, and so does \<^verbatim>\<open>executeToolCall\<close> on a tool call with these
  arguments.
\<close>

theorem executeToolCall_throws_counterexample:
  "fst (executeToolCall sampleEnv
          \<lparr> call_id = ''call_1'', fn_name = ''search_knowledge_base'',
            fn_arguments = NotJson [] ''Unexpected end of JSON input'' \<rparr> emptyState)
   = Inl (Error ''Unexpected end of JSON input''
               ''SyntaxError: Unexpected end of JSON input'' None)"
  by (simp add: executeToolCall_def JSON_parse_def)

lemma failing_search:
  "fst (withRetry (searchSupabaseEmbedding
                     (sampleEnv \<lparr> embeddingsCreate := (\<lambda>k. Inl (newError ''fetch failed'')) \<rparr>)
                     (getProp (JObj [(''query'', JStr ''widgets'')]) ''query''))
          sleep 3 1000
          (logEvent (ToolExecution \<lparr> call_id = ''call_1'', fn_name = ''search_knowledge_base'',
                       fn_arguments = JsonOf (JObj [(''query'', JStr ''widgets'')]) \<rparr>) emptyState))
   = Inl (newError ''Failed to create embedding: fetch failed'')"
  by code_simp

theorem executeToolCall_total_on_json_witness:
  "(\<exists>r s'. executeToolCall sampleEnv
              \<lparr> call_id = ''call_1'', fn_name = ''get_weather'', fn_arguments = JsonOf (JObj []) \<rparr>
              emptyState = (Inr r, s')
        \<and> tr_result r = JsonOf (JObj [(''error'', JStr ''Unknown tool: get_weather'')])
        \<and> tr_products r = [])
   \<and> (\<exists>r s'. executeToolCall
              (sampleEnv \<lparr> embeddingsCreate := (\<lambda>k. Inl (newError ''fetch failed'')) \<rparr>)
              \<lparr> call_id = ''call_1'', fn_name = ''search_knowledge_base'',
                fn_arguments = JsonOf (JObj [(''query'', JStr ''widgets'')]) \<rparr>
              emptyState = (Inr r, s')
        \<and> r = searchFailure (newError ''Failed to create embedding: fetch failed''))
   \<and> (\<exists>r s'. executeToolCall sampleEnv
              \<lparr> call_id = ''call_1'', fn_name = ''search_knowledge_base'',
                fn_arguments = JsonOf JNull \<rparr>
              emptyState = (Inr r, s')
        \<and> r = searchFailure nullArguments \<and> tr_products r = [])
   \<and> runToolCalls sampleEnv
         [\<lparr> call_id = ''call_1'', fn_name = ''get_weather'',
            fn_arguments = NotJson [] ''Unexpected end of JSON input'' \<rparr>] [] [] emptyState
       = (([toolMessage \<lparr> call_id = ''call_1'', fn_name = ''get_weather'',
                          fn_arguments = NotJson [] ''Unexpected end of JSON input'' \<rparr>
              (JsonOf (JObj [(''error'', JStr ''Failed to execute get_weather''),
                             (''details'', JStr ''Unexpected end of JSON input'')]))], []),
          logEvent (ToolExecution \<lparr> call_id = ''call_1'', fn_name = ''get_weather'',
                      fn_arguments = NotJson [] ''Unexpected end of JSON input'' \<rparr>) emptyState)"
proof (intro conjI)
  let ?tc = "\<lparr> call_id = ''call_1'', fn_name = ''get_weather'', fn_arguments = JsonOf (JObj []) \<rparr>"
  show "\<exists>r s'. executeToolCall sampleEnv ?tc emptyState = (Inr r, s')
        \<and> tr_result r = JsonOf (JObj [(''error'', JStr ''Unknown tool: get_weather'')])
        \<and> tr_products r = []"
    using executeToolCall_total_on_json[where tc = ?tc and args = "JObj []" and E = sampleEnv
        and s = emptyState, THEN conjunct1]
    by auto
next
  let ?tc = "\<lparr> call_id = ''call_1'', fn_name = ''search_knowledge_base'',
                fn_arguments = JsonOf (JObj [(''query'', JStr ''widgets'')]) \<rparr>"
  let ?E = "sampleEnv \<lparr> embeddingsCreate := (\<lambda>k. Inl (newError ''fetch failed'')) \<rparr>"
  show "\<exists>r s'. executeToolCall ?E ?tc emptyState = (Inr r, s')
        \<and> r = searchFailure (newError ''Failed to create embedding: fetch failed'')"
    using executeToolCall_total_on_json[where tc = ?tc and args = "JObj [(''query'', JStr ''widgets'')]"
        and E = ?E and s = emptyState, THEN conjunct1] failing_search
    by auto
next
  let ?tc = "\<lparr> call_id = ''call_1'', fn_name = ''search_knowledge_base'',
                fn_arguments = JsonOf JNull \<rparr>"
  show "\<exists>r s'. executeToolCall sampleEnv ?tc emptyState = (Inr r, s')
        \<and> r = searchFailure nullArguments \<and> tr_products r = []"
    using executeToolCall_total_on_json[where tc = ?tc and args = JNull and E = sampleEnv
        and s = emptyState, THEN conjunct1]
    by auto
next
  let ?tc = "\<lparr> call_id = ''call_1'', fn_name = ''get_weather'',
               fn_arguments = NotJson [] ''Unexpected end of JSON input'' \<rparr>"
  show "runToolCalls sampleEnv [?tc] [] [] emptyState
       = (([toolMessage ?tc
              (JsonOf (JObj [(''error'', JStr ''Failed to execute get_weather''),
                             (''details'', JStr ''Unexpected end of JSON input'')]))], []),
          logEvent (ToolExecution ?tc) emptyState)"
    using executeToolCall_total_on_json[where tc = ?tc and t = "[]"
        and m = "''Unexpected end of JSON input''" and E = sampleEnv
        and s = emptyState and rest = "[]" and messages = "[]" and allProducts = "[]",
        THEN conjunct2]
    by (simp add: JSON_stringify_def)
qed
section \<open>The trace of an orchestration\<close>

lemma quietStep_iff:
  "quietStep s s' \<longleftrightarrow>
     chatMessages s' = chatMessages s \<and> (\<exists>evs. trace s' = trace s @ evs \<and> list_all quiet evs)"
proof
  assume q: "quietStep s s'"
  then have "trace s' = trace s @ newEvents s s'"
    unfolding quietStep_def newEvents_def
    by (metis append_take_drop_id)
  with q show "chatMessages s' = chatMessages s \<and> (\<exists>evs. trace s' = trace s @ evs \<and> list_all quiet evs)"
    unfolding quietStep_def by blast
next
  assume "chatMessages s' = chatMessages s \<and> (\<exists>evs. trace s' = trace s @ evs \<and> list_all quiet evs)"
  then show "quietStep s s'"
    by (auto simp: quietStep_def newEvents_def)
qed

lemma quietStep_refl: "quietStep s s"
  by (simp add: quietStep_iff)

lemma quietStep_trans: "quietStep a b \<Longrightarrow> quietStep b c \<Longrightarrow> quietStep a c"
  unfolding quietStep_iff by (elim conjE exE) (auto simp: list_all_append)

lemma quietStep_log: "quiet e \<Longrightarrow> quietStep s (logEvent e s)"
  by (simp add: quietStep_iff logEvent_def)

lemma quietStep_sleep: "quietStep s (sleep d s)"
  by (simp add: sleep_def quietStep_log quiet_def)

lemma quietStep_getEmbedding: "quietStep s (snd (getEmbedding E t s))"
  by (auto simp: getEmbedding_def Let_def quietStep_log quiet_def split: sum.splits)

lemma quietStep_matchDocuments: "quietStep s (snd (matchDocuments E v s))"
  by (auto simp: matchDocuments_def Let_def quietStep_log quiet_def split: sum.splits option.splits)

lemma quietStep_search: "quietStep s (snd (searchSupabaseEmbedding E q s))"
proof -
  have g: "\<And>t r s1. getEmbedding E t s = (r, s1) \<Longrightarrow> quietStep s s1"
    using quietStep_getEmbedding by (metis snd_conv)
  have m: "\<And>v s1. quietStep s s1 \<Longrightarrow> quietStep s (snd (matchDocuments E v s1))"
    using quietStep_matchDocuments quietStep_trans by blast
  show ?thesis
    unfolding searchSupabaseEmbedding_def
    by (auto simp: quietStep_refl split: option.splits json.splits sum.splits prod.splits
        intro: g m dest: g)
qed

lemma withRetry_loop_invariant:
  assumes fn: "\<And>s. R s (snd (fn s))" and sl: "\<And>d s. R s (sl d s)"
    and refl: "\<And>s. R s s" and trans: "\<And>a b c. R a b \<Longrightarrow> R b c \<Longrightarrow> R a c"
  shows "R s (snd (withRetry_loop fn sl M B i le s))"
  using assms
proof (induction fn sl M B i le s rule: withRetry_loop.induct)
  case (1 fn sleep maxRetries baseDelay i lastError s)
  note R_fn = "1.prems"(1) and R_sl = "1.prems"(2) and R_refl = "1.prems"(3)
    and R_trans = "1.prems"(4)
  show ?case
  proof (cases "i < maxRetries")
    case False
    then show ?thesis
      by (subst withRetry_loop.simps) (simp add: R_refl)
  next
    case True
    obtain r s' where f: "fn s = (r, s')" by (cases "fn s")
    have step: "R s s'" using R_fn[of s] f by simp
    show ?thesis
    proof (cases r)
      case (Inr v)
      with True f step show ?thesis
        by (subst withRetry_loop.simps) simp
    next
      case (Inl error)
      show ?thesis
      proof (cases "isConfigurationError error")
        case True
        with \<open>i < maxRetries\<close> Inl f step show ?thesis
          by (subst withRetry_loop.simps) simp
      next
        case False
        note notConfig = False
        show ?thesis
        proof (cases "i < maxRetries - 1")
          case True
          have "R (sleep (baseDelay * 2 ^ nat i) s')
                  (snd (withRetry_loop fn sleep maxRetries baseDelay (i + 1) (Some error)
                          (sleep (baseDelay * 2 ^ nat i) s')))"
            using "1.IH"(1)[OF \<open>i < maxRetries\<close> f[symmetric] Inl notConfig True]
              R_fn R_sl R_refl R_trans by blast
          then have "R s (snd (withRetry_loop fn sleep maxRetries baseDelay (i + 1) (Some error)
                          (sleep (baseDelay * 2 ^ nat i) s')))"
            using step R_sl R_trans by blast
          with True notConfig \<open>i < maxRetries\<close> Inl f show ?thesis
            by (subst withRetry_loop.simps) simp
        next
          case False
          have "R s' (snd (withRetry_loop fn sleep maxRetries baseDelay (i + 1) (Some error) s'))"
            using "1.IH"(2)[OF \<open>i < maxRetries\<close> f[symmetric] Inl notConfig False]
              R_fn R_sl R_refl R_trans by blast
          then have "R s (snd (withRetry_loop fn sleep maxRetries baseDelay (i + 1) (Some error) s'))"
            using step R_trans by blast
          with False notConfig \<open>i < maxRetries\<close> Inl f show ?thesis
            by (subst withRetry_loop.simps) simp
        qed
      qed
    qed
  qed
qed

lemma quietStep_withRetry_search:
  "quietStep s (snd (withRetry (searchSupabaseEmbedding E q) sleep M B s))"
  unfolding withRetry_def
  by (rule withRetry_loop_invariant)
     (auto intro: quietStep_search quietStep_sleep quietStep_refl quietStep_trans)

lemma trace_logEvent: "trace (logEvent e s) = trace s @ [e]"
  and chatMessages_logEvent: "chatMessages (logEvent e s) = chatMessages s"
  by (simp_all add: logEvent_def)

text \<open>What a tool execution leaves in the trace: its own event, then quiet events.\<close>

lemma executeToolCall_trace:
  "\<exists>evs. trace (snd (executeToolCall E tc s)) = trace s @ ToolExecution tc # evs
         \<and> list_all quiet evs
         \<and> chatMessages (snd (executeToolCall E tc s)) = chatMessages s"
proof -
  let ?s0 = "logEvent (ToolExecution tc) s"
  have base: "trace ?s0 = trace s @ ToolExecution tc # [] \<and> list_all quiet []
              \<and> chatMessages ?s0 = chatMessages s"
    by (simp add: logEvent_def)
  have retry: "\<And>q. \<exists>evs. trace (snd (withRetry (searchSupabaseEmbedding E q) sleep 3 1000 ?s0))
                    = trace s @ ToolExecution tc # evs \<and> list_all quiet evs
                 \<and> chatMessages (snd (withRetry (searchSupabaseEmbedding E q) sleep 3 1000 ?s0))
                    = chatMessages s"
  proof -
    fix q
    have "quietStep ?s0 (snd (withRetry (searchSupabaseEmbedding E q) sleep 3 1000 ?s0))"
      by (rule quietStep_withRetry_search)
    then show "\<exists>evs. trace (snd (withRetry (searchSupabaseEmbedding E q) sleep 3 1000 ?s0))
                    = trace s @ ToolExecution tc # evs \<and> list_all quiet evs
                 \<and> chatMessages (snd (withRetry (searchSupabaseEmbedding E q) sleep 3 1000 ?s0))
                    = chatMessages s"
      unfolding quietStep_iff by (auto simp: logEvent_def)
  qed
  show ?thesis
  proof (cases "JSON_parse (fn_arguments tc)")
    case (Inl e)
    then have "snd (executeToolCall E tc s) = ?s0"
      by (simp add: executeToolCall_def Let_def)
    then show ?thesis using base by simp
  next
    case (Inr args)
    show ?thesis
    proof (cases "fn_name tc = ''search_knowledge_base'' \<and> args \<noteq> JNull")
      case False
      then have "snd (executeToolCall E tc s) = ?s0"
        using Inr by (auto simp: executeToolCall_def Let_def)
      then show ?thesis using base by simp
    next
      case True
      obtain res s1 where w: "withRetry (searchSupabaseEmbedding E (getProp args ''query'')) sleep
                                3 1000 ?s0 = (res, s1)"
        by (cases "withRetry (searchSupabaseEmbedding E (getProp args ''query'')) sleep 3 1000 ?s0")
      have "snd (executeToolCall E tc s) = s1"
        using True Inr w by (cases res) (auto simp: executeToolCall_def Let_def)
      with retry[of "getProp args ''query''"] w show ?thesis by simp
    qed
  qed
qed

lemma runToolCalls_trace:
  "\<exists>evs. trace (snd (runToolCalls E tcs msgs ps s)) = trace s @ evs
         \<and> executedCalls evs = tcs
         \<and> list_all (\<lambda>e. \<not> isCompletionCall e \<and> \<not> isDbCall e) evs
         \<and> chatMessages (snd (runToolCalls E tcs msgs ps s)) = chatMessages s"
proof (induction tcs arbitrary: msgs ps s)
  case Nil
  then show ?case by simp
next
  case (Cons tc tcs)
  obtain r s1 where e: "executeToolCall E tc s = (r, s1)" by (cases "executeToolCall E tc s")
  from executeToolCall_trace[of E tc s] e obtain evs1 where
    t1: "trace s1 = trace s @ ToolExecution tc # evs1" "list_all quiet evs1"
        "chatMessages s1 = chatMessages s"
    by auto
  have q1: "executedCalls evs1 = []" "list_all (\<lambda>e. \<not> isCompletionCall e \<and> \<not> isDbCall e) evs1"
    using t1(2) by (induction evs1 rule: executedCalls.induct) (auto simp: quiet_def)
  obtain msgs' ps' where
    rec: "runToolCalls E (tc # tcs) msgs ps s = runToolCalls E tcs msgs' ps' s1"
    using e by (cases r) auto
  from Cons.IH[of msgs' ps' s1] obtain evs2 where
    t2: "trace (snd (runToolCalls E tcs msgs' ps' s1)) = trace s1 @ evs2"
        "executedCalls evs2 = tcs"
        "list_all (\<lambda>e. \<not> isCompletionCall e \<and> \<not> isDbCall e) evs2"
        "chatMessages (snd (runToolCalls E tcs msgs' ps' s1)) = chatMessages s1"
    by auto
  have ex: "\<And>a b. executedCalls a = [] \<Longrightarrow> executedCalls (a @ b) = executedCalls b"
  proof -
    fix a b show "executedCalls a = [] \<Longrightarrow> executedCalls (a @ b) = executedCalls b"
      by (induction a rule: executedCalls.induct) auto
  qed
  show ?case
    unfolding rec
    apply (rule exI[of _ "ToolExecution tc # evs1 @ evs2"])
    using t1 t2 q1 by (simp add: ex list_all_append)
qed

subsection \<open>The orchestration\<close>

lemma countEvents_logEvent:
  "countEvents P (logEvent e s) = (if P e then Suc (countEvents P s) else countEvents P s)"
  by (simp add: countEvents_def logEvent_def)

text \<open>The reads that open every orchestration, when the store does not fail.\<close>

lemma addMessage_prefix:
  assumes "dbFailure E (countEvents isDbCall s) = None"
    and "dbFailure E (Suc (countEvents isDbCall s)) = None"
  shows "\<exists>msgs s2.
      trace s2 = trace s @ [DbFindAgent aid, DbFindMessages sid]
      \<and> chatMessages s2 = chatMessages s
      \<and> addMessage E sid content' aid s =
          (case complete E msgs s2 of
             (Inl error, s3) \<Rightarrow> (Inl error, s3)
           | (Inr None, s3) \<Rightarrow> (Inl (newError ''No response from OpenAI''), s3)
           | (Inr (Some message'), s3) \<Rightarrow>
               (let assistantContent = cm_content message';
                    toolCalls = (case cm_tool_calls message' of Some tcs \<Rightarrow> tcs | None \<Rightarrow> [])
                in if length toolCalls = 0 then
                     (if shouldUseSearch content'
                      then forcedSearch E sid content' msgs assistantContent s3
                      else persistTurn E sid content' (orNull assistantContent) [] s3)
                   else toolRound E sid content' msgs assistantContent toolCalls s3))"
proof -
  let ?msgs = "plainMessage System (enhancedSystemPrompt
                  (case agentSystemPrompt E aid of Some p \<Rightarrow> p
                   | None \<Rightarrow> ''You are a helpful assistant.''))
               # concat (map historyOf (sort_key row_createdAt
                   (filter (\<lambda>row. row_sessionId row = sid) (chatMessages s))))
               @ [plainMessage User content']"
  let ?s2 = "logEvent (DbFindMessages sid) (logEvent (DbFindAgent aid) s)"
  show ?thesis
    apply (rule exI[of _ ?msgs])
    apply (rule exI[of _ ?s2])
    using assms
    by (simp add: addMessage_def findAgent_def findMessages_def dbCall_def Let_def
        countEvents_logEvent trace_logEvent chatMessages_logEvent)
qed

lemma persistTurn_ok:
  assumes "dbFailure E (countEvents isDbCall s) = None"
  shows "persistTurn E sid content' txt ps s =
     (Inr \<lparr> msg_id = newRowId E (countEvents isDbCall s), sessionId = sid,
            userMessage = Some content', assistantMessage = txt, products = ps,
            createdAt = clock E (countEvents isDbCall s),
            updatedAt = clock E (countEvents isDbCall s) \<rparr>,
      s \<lparr> trace := trace s @ [DbCreateMessage sid (Some content') txt],
          chatMessages := chatMessages s @
            [\<lparr> row_id = newRowId E (countEvents isDbCall s), row_sessionId = sid,
               row_userMessage = Some content', row_assistantMessage = txt,
               row_createdAt = clock E (countEvents isDbCall s),
               row_updatedAt = clock E (countEvents isDbCall s) \<rparr>] \<rparr>)"
  using assms
  by (simp add: persistTurn_def createChatMessage_def dbCall_def respond_def Let_def logEvent_def)

lemma persistTurn_fail:
  assumes "dbFailure E (countEvents isDbCall s) = Some e"
  shows "persistTurn E sid content' txt ps s =
     (Inl e, s \<lparr> trace := trace s @ [DbCreateMessage sid (Some content') txt] \<rparr>)"
  using assms
  by (simp add: persistTurn_def createChatMessage_def dbCall_def logEvent_def)

lemma complete_fst: "fst (complete E msgs s) = chatCompletionsCreate E (countEvents isCompletionCall s)"
  by (simp add: complete_def)

lemma complete_snd: "snd (complete E msgs s) = logEvent (CompletionCall msgs) s"
  by (simp add: complete_def)

lemma countEvents_append:
  "trace s2 = trace s @ evs \<Longrightarrow>
   countEvents P s2 = countEvents P s + length (filter P evs)"
  by (simp add: countEvents_def)


lemma afterCompletion_skip:
  "list_all (\<lambda>e. \<not> isCompletionCall e) a \<Longrightarrow> afterCompletion (a @ b) = afterCompletion b"
  by (induction a) auto

lemma afterCompletion_none:
  "list_all (\<lambda>e. \<not> isCompletionCall e) a \<Longrightarrow> afterCompletion a = []"
  by (induction a) auto

lemma executedCalls_append: "executedCalls (a @ b) = executedCalls a @ executedCalls b"
  by (induction a rule: executedCalls.induct) auto

lemma quiet_facts:
  "list_all quiet evs \<Longrightarrow>
     list_all (\<lambda>e. \<not> isCompletionCall e) evs \<and> executedCalls evs = []
     \<and> filter isCompletionCall evs = [] \<and> filter isToolExecution evs = []
     \<and> filter isDbCall evs = []"
  by (induction evs rule: executedCalls.induct) (auto simp: quiet_def)

lemma noCompletion_facts:
  "list_all (\<lambda>e. \<not> isCompletionCall e \<and> \<not> isDbCall e) evs \<Longrightarrow>
     list_all (\<lambda>e. \<not> isCompletionCall e) evs \<and> filter isCompletionCall evs = []
     \<and> filter isDbCall evs = []"
  by (induction evs) auto

lemma persistTurn_trace:
  "trace (snd (persistTurn E sid content' txt ps s))
     = trace s @ [DbCreateMessage sid (Some content') txt]"
  by (cases "dbFailure E (countEvents isDbCall s)") (simp_all add: persistTurn_ok persistTurn_fail)

text \<open>The events of the forced search, from the state after the first completion.\<close>

lemma forcedSearch_events:
  "\<exists>new1. trace (snd (forcedSearch E sid content' msgs ac s)) = trace s @ new1
      \<and> length (filter isCompletionCall new1) \<le> 1
      \<and> filter isToolExecution (afterCompletion new1) = []
      \<and> executedCalls new1 = [forcedToolCall content']"
proof -
  let ?tc = "forcedToolCall content'"
  obtain res s1 where ex: "executeToolCall E ?tc s = (res, s1)" by (cases "executeToolCall E ?tc s")
  from executeToolCall_trace[of E ?tc s] ex obtain evs
    where t1: "trace s1 = trace s @ ToolExecution ?tc # evs" and q: "list_all quiet evs"
    by auto
  note qf = quiet_facts[OF q]
  show ?thesis
  proof (cases res)
    case (Inl e)
    then have "forcedSearch E sid content' msgs ac s = (Inl e, s1)"
      using ex by (simp add: forcedSearch_def)
    then show ?thesis
      using t1 qf
      by (intro exI[of _ "ToolExecution ?tc # evs"]) (simp add: afterCompletion_none)
  next
    case (Inr sr)
    let ?m = "msgs @
                 [\<lparr> role = Assistant, msg_content = None,
                    tool_calls = Some [?tc], tool_call_id = None,
                    tool_name = None \<rparr>,
                  toolMessage ?tc (tr_result sr)]"
    let ?s2 = "logEvent (CompletionCall ?m) s1"
    show ?thesis
    proof (cases "chatCompletionsCreate E (countEvents isCompletionCall s1)")
      case (Inl e)
      then have "forcedSearch E sid content' msgs ac s = (Inl e, ?s2)"
        using ex Inr by (simp add: forcedSearch_def complete_def Let_def)
      then show ?thesis
        using t1 qf
        by (intro exI[of _ "ToolExecution ?tc # evs @ [CompletionCall ?m]"])
           (simp add: trace_logEvent afterCompletion_skip executedCalls_append)
    next
      case (Inr rc)
      then have "\<exists>X Y. forcedSearch E sid content' msgs ac s = persistTurn E sid content' X Y ?s2"
        using ex \<open>res = Inr sr\<close>
        by (auto simp add: forcedSearch_def complete_def Let_def split: option.splits)
      then obtain X Y where
        "forcedSearch E sid content' msgs ac s = persistTurn E sid content' X Y ?s2" by blast
      then show ?thesis
        using t1 qf
        by (intro exI[of _ "ToolExecution ?tc # evs
                             @ [CompletionCall ?m, DbCreateMessage sid (Some content') X]"])
           (simp add: persistTurn_trace trace_logEvent afterCompletion_skip executedCalls_append)
    qed
  qed
qed

text \<open>The events of the branch with requested tool calls.\<close>

lemma toolRound_events:
  "\<exists>new1. trace (snd (toolRound E sid content' msgs ac tcs s)) = trace s @ new1
      \<and> length (filter isCompletionCall new1) \<le> 1
      \<and> filter isToolExecution (afterCompletion new1) = []
      \<and> executedCalls new1 = tcs"
proof -
  let ?m0 = "msgs @ [\<lparr> role = Assistant, msg_content = map_option Text ac,
                        tool_calls = Some tcs, tool_call_id = None, tool_name = None \<rparr>]"
  obtain msgs' ps s1 where run: "runToolCalls E tcs ?m0 [] s = ((msgs', ps), s1)"
    by (cases "runToolCalls E tcs ?m0 [] s") auto
  from runToolCalls_trace[of E tcs ?m0 "[]" s] run obtain evs
    where t1: "trace s1 = trace s @ evs" and ec: "executedCalls evs = tcs"
      and nc: "list_all (\<lambda>e. \<not> isCompletionCall e \<and> \<not> isDbCall e) evs"
    by auto
  note nf = noCompletion_facts[OF nc]
  let ?m = "msgs' @ (if length (uniqueProducts ps) > 0
                     then [productReminder (uniqueProducts ps)] else [])"
  let ?s2 = "logEvent (CompletionCall ?m) s1"
  have "toolRound E sid content' msgs ac tcs s = (Inl (newError ''No follow-up response from OpenAI''), ?s2)
        \<or> (\<exists>e. toolRound E sid content' msgs ac tcs s = (Inl e, ?s2))
        \<or> (\<exists>X Y. toolRound E sid content' msgs ac tcs s = persistTurn E sid content' X Y ?s2)"
    using run
    by (auto simp add: toolRound_def complete_def Let_def split: sum.splits option.splits)
  then consider (err) e where "toolRound E sid content' msgs ac tcs s = (Inl e, ?s2)"
    | (ok) X Y where "toolRound E sid content' msgs ac tcs s = persistTurn E sid content' X Y ?s2"
    by blast
  then show ?thesis
  proof cases
    case err
    then show ?thesis
      using t1 nf ec
      by (intro exI[of _ "evs @ [CompletionCall ?m]"])
         (simp add: trace_logEvent afterCompletion_skip executedCalls_append)
  next
    case ok
    then show ?thesis
      using t1 nf ec
      by (intro exI[of _ "evs @ [CompletionCall ?m, DbCreateMessage sid (Some content') X]"])
         (simp add: persistTurn_trace trace_logEvent afterCompletion_skip executedCalls_append)
  qed
qed


lemma newEvents_append: "trace s' = trace s @ evs \<Longrightarrow> newEvents s s' = evs"
  by (simp add: newEvents_def)


lemma executeToolCall_returns:
  "fn_arguments tc = JsonOf args \<Longrightarrow> \<exists>r. fst (executeToolCall E tc s) = Inr r"
  by (auto simp: executeToolCall_def JSON_parse_def Let_def split: prod.splits sum.splits)

lemma persistTurn_answer:
  assumes "dbFailure E (countEvents isDbCall s) = None"
  shows "\<exists>r row. fst (persistTurn E sid content' saved ps s) = Inr r
           \<and> assistantMessage r = saved \<and> products r = ps \<and> userMessage r = Some content'
           \<and> sessionId r = sid
           \<and> chatMessages (snd (persistTurn E sid content' saved ps s)) = chatMessages s @ [row]
           \<and> row_sessionId row = sid \<and> row_userMessage row = Some content'
           \<and> row_assistantMessage row = saved"
  by (simp add: persistTurn_ok[OF assms])

text \<open>
  The forced search when the store does not fail and the second completion returns: the
  tool result, the answer, the new row and the events.
\<close>

lemma forcedSearch_result:
  assumes db: "\<forall>k. dbFailure E k = None"
    and second: "chatCompletionsCreate E (countEvents isCompletionCall s) = Inr retryChoice"
  shows "\<exists>r evs m saved sr s1 row.
      executeToolCall E (forcedToolCall content') s = (Inr sr, s1)
      \<and> fst (forcedSearch E sid content' msgs ac s) = Inr r
      \<and> trace (snd (forcedSearch E sid content' msgs ac s))
          = trace s @ ToolExecution (forcedToolCall content') # evs
              @ [CompletionCall m, DbCreateMessage sid (Some content') saved]
      \<and> list_all quiet evs
      \<and> chatMessages (snd (forcedSearch E sid content' msgs ac s)) = chatMessages s @ [row]
      \<and> row_sessionId row = sid \<and> row_userMessage row = Some content'
      \<and> row_assistantMessage row = saved
      \<and> assistantMessage r = saved \<and> userMessage r = Some content' \<and> sessionId r = sid
      \<and> (case (case retryChoice of Some m \<Rightarrow> orNull (cm_content m) | None \<Rightarrow> None) of
            Some t \<Rightarrow> saved = Some t \<and> products r = tr_products sr
          | None \<Rightarrow> saved = orNull ac \<and> products r = [])"
proof -
  let ?tc = "forcedToolCall content'"
  have "fn_arguments ?tc = JsonOf (JObj [(''query'', JStr content')])"
    by (simp add: forcedToolCall_def JSON_stringify_def)
  from executeToolCall_returns[OF this, of E s]
  obtain sr s1 where ex: "executeToolCall E ?tc s = (Inr sr, s1)"
    by (cases "executeToolCall E ?tc s") auto
  from executeToolCall_trace[of E ?tc s] ex obtain evs
    where t1: "trace s1 = trace s @ ToolExecution ?tc # evs" and q: "list_all quiet evs"
      and c1: "chatMessages s1 = chatMessages s"
    by auto
  note qf = quiet_facts[OF q]
  have cnt: "countEvents isCompletionCall s1 = countEvents isCompletionCall s"
    using countEvents_append[OF t1, of isCompletionCall] qf by simp
  let ?m = "msgs @
                 [\<lparr> role = Assistant, msg_content = None,
                    tool_calls = Some [?tc], tool_call_id = None,
                    tool_name = None \<rparr>,
                  toolMessage ?tc (tr_result sr)]"
  let ?s2 = "logEvent (CompletionCall ?m) s1"
  let ?choice = "case retryChoice of Some m \<Rightarrow> orNull (cm_content m) | None \<Rightarrow> None"
  have d: "dbFailure E (countEvents isDbCall ?s2) = None" using db by simp
  have tr2: "trace ?s2 = trace s @ ToolExecution ?tc # evs @ [CompletionCall ?m]"
    by (simp add: trace_logEvent t1)
  have c2: "chatMessages ?s2 = chatMessages s"
    by (simp add: chatMessages_logEvent c1)
  have fs: "forcedSearch E sid content' msgs ac s =
        (case ?choice of
           Some retryContent \<Rightarrow> persistTurn E sid content' (Some retryContent) (tr_products sr) ?s2
         | None \<Rightarrow> persistTurn E sid content' (orNull ac) [] ?s2)"
    using ex by (simp add: forcedSearch_def complete_def Let_def cnt second)
  show ?thesis
  proof (cases ?choice)
    case None
    then have eq: "forcedSearch E sid content' msgs ac s
                   = persistTurn E sid content' (orNull ac) [] ?s2"
      using fs by simp
    from persistTurn_answer[OF d, of sid content' "orNull ac" "[]"] obtain r row
      where r: "fst (persistTurn E sid content' (orNull ac) [] ?s2) = Inr r"
        "assistantMessage r = orNull ac" "products r = []" "userMessage r = Some content'"
        "sessionId r = sid"
        "chatMessages (snd (persistTurn E sid content' (orNull ac) [] ?s2))
           = chatMessages ?s2 @ [row]"
        "row_sessionId row = sid" "row_userMessage row = Some content'"
        "row_assistantMessage row = orNull ac" by blast
    show ?thesis
      unfolding eq
      apply (rule exI[of _ r], rule exI[of _ evs], rule exI[of _ ?m], rule exI[of _ "orNull ac"],
             rule exI[of _ sr], rule exI[of _ s1], rule exI[of _ row])
      using r q None ex by (simp add: persistTurn_trace tr2 c2)
  next
    case (Some t)
    then have eq: "forcedSearch E sid content' msgs ac s
               = persistTurn E sid content' (Some t) (tr_products sr) ?s2"
      using fs by simp
    from persistTurn_answer[OF d, of sid content' "Some t" "tr_products sr"] obtain r row
      where r: "fst (persistTurn E sid content' (Some t) (tr_products sr) ?s2) = Inr r"
        "assistantMessage r = Some t" "products r = tr_products sr"
        "userMessage r = Some content'" "sessionId r = sid"
        "chatMessages (snd (persistTurn E sid content' (Some t) (tr_products sr) ?s2))
           = chatMessages ?s2 @ [row]"
        "row_sessionId row = sid" "row_userMessage row = Some content'"
        "row_assistantMessage row = Some t" by blast
    show ?thesis
      unfolding eq
      apply (rule exI[of _ r], rule exI[of _ evs], rule exI[of _ ?m], rule exI[of _ "Some t"],
             rule exI[of _ sr], rule exI[of _ s1], rule exI[of _ row])
      using r q Some ex by (simp add: persistTurn_trace tr2 c2)
  qed
qed

text \<open>The orchestration up to its first completion call, when the store does not fail.\<close>

lemma addMessage_first:
  assumes "dbFailure E (countEvents isDbCall s) = None"
    and "dbFailure E (Suc (countEvents isDbCall s)) = None"
  shows "addMessage E sid content' aid s =
          (case chatCompletionsCreate E (countEvents isCompletionCall s) of
             Inl error \<Rightarrow> (Inl error, afterFirstCompletion E sid content' aid s)
           | Inr None \<Rightarrow> (Inl (newError ''No response from OpenAI''),
                           afterFirstCompletion E sid content' aid s)
           | Inr (Some message') \<Rightarrow>
               (let assistantContent = cm_content message';
                    toolCalls = (case cm_tool_calls message' of Some tcs \<Rightarrow> tcs | None \<Rightarrow> [])
                in if length toolCalls = 0 then
                     (if shouldUseSearch content'
                      then forcedSearch E sid content' (firstMessages E sid content' aid s)
                             assistantContent (afterFirstCompletion E sid content' aid s)
                      else persistTurn E sid content' (orNull assistantContent) []
                             (afterFirstCompletion E sid content' aid s))
                   else toolRound E sid content' (firstMessages E sid content' aid s)
                          assistantContent toolCalls (afterFirstCompletion E sid content' aid s)))"
  using assms
  by (simp add: addMessage_def findAgent_def findMessages_def dbCall_def Let_def complete_def
      countEvents_logEvent chatMessages_logEvent firstMessages_def afterFirstCompletion_def
      split: sum.splits option.splits)
section \<open>Knowledge search on an empty query\<close>

lemma truthy_JStr: "truthy (Some (JStr q)) = (q \<noteq> [])" by simp

lemma trim_Nil: "trim [] = []" by (simp add: trim_def)

text \<open>
  C8. Knowledge search on a query that is empty or consists of white space returns the empty
  list and leaves the state as it is: no call reaches the embedding provider (nor any other
  collaborator). On any other query whose embedding comes back absent or empty, the search
  returns the empty list after that one embedding call, without a similarity search.
\<close>

theorem searchSupabaseEmbedding_empty:
  "(trim q = [] \<longrightarrow> searchSupabaseEmbedding E (Some (JStr q)) s = (Inr [], s))
   \<and> (trim q \<noteq> []
        \<and> (embeddingsCreate E (countEvents isEmbeddingCall s) = Inr None
            \<or> embeddingsCreate E (countEvents isEmbeddingCall s) = Inr (Some []))
      \<longrightarrow> searchSupabaseEmbedding E (Some (JStr q)) s = (Inr [], logEvent (EmbeddingCall q) s))"
proof (intro conjI impI)
  assume "trim q = []"
  then show "searchSupabaseEmbedding E (Some (JStr q)) s = (Inr [], s)"
    by (simp add: searchSupabaseEmbedding_def)
next
  assume a: "trim q \<noteq> []
        \<and> (embeddingsCreate E (countEvents isEmbeddingCall s) = Inr None
            \<or> embeddingsCreate E (countEvents isEmbeddingCall s) = Inr (Some []))"
  then have q: "q \<noteq> []" using trim_Nil by auto
  from a show "searchSupabaseEmbedding E (Some (JStr q)) s = (Inr [], logEvent (EmbeddingCall q) s)"
    using q by (auto simp: searchSupabaseEmbedding_def getEmbedding_def)
qed

lemma trim_blank: "trim [CHR '' '', CHR 0x09, CHR 0x0A] = []"
  by (simp add: trim_def isWhiteSpace_def codeUnit_def)

lemma trim_widgets: "trim ''widgets'' \<noteq> []"
  by (simp add: trim_def isWhiteSpace_def codeUnit_def)

theorem searchSupabaseEmbedding_empty_witness:
  "searchSupabaseEmbedding sampleEnv (Some (JStr [CHR '' '', CHR 0x09, CHR 0x0A])) emptyState
     = (Inr [], emptyState)
   \<and> searchSupabaseEmbedding (sampleEnv \<lparr> embeddingsCreate := (\<lambda>k. Inr (Some [])) \<rparr>)
        (Some (JStr ''widgets'')) emptyState
     = (Inr [], \<lparr> chatMessages = [], trace = [EmbeddingCall ''widgets''] \<rparr>)"
proof
  show "searchSupabaseEmbedding sampleEnv (Some (JStr [CHR '' '', CHR 0x09, CHR 0x0A])) emptyState
     = (Inr [], emptyState)"
    using searchSupabaseEmbedding_empty[where q = "[CHR '' '', CHR 0x09, CHR 0x0A]"
        and E = sampleEnv and s = emptyState, THEN conjunct1] trim_blank
    by simp
next
  let ?E = "sampleEnv \<lparr> embeddingsCreate := (\<lambda>k. Inr (Some [])) \<rparr>"
  have h: "trim ''widgets'' \<noteq> []
        \<and> (embeddingsCreate ?E (countEvents isEmbeddingCall emptyState) = Inr None
            \<or> embeddingsCreate ?E (countEvents isEmbeddingCall emptyState) = Inr (Some []))"
    using trim_widgets by simp
  show "searchSupabaseEmbedding ?E (Some (JStr ''widgets'')) emptyState
     = (Inr [], \<lparr> chatMessages = [], trace = [EmbeddingCall ''widgets''] \<rparr>)"
    using searchSupabaseEmbedding_empty[where q = "''widgets''" and E = ?E and s = emptyState,
        THEN conjunct2, rule_format, OF h]
    by (simp add: logEvent_def emptyState_def)
qed

section \<open>Products of a text with two blocks\<close>









































































section \<open>The direct answer\<close>

text \<open>
  C6. When the store does not fail, the first completion requests no tool call and the user
  content does not match the intent heuristic, the orchestration answers with the first
  completion's text as the assistant message (\<^verbatim>\<open>null\<close> when the provider returned no text or
  the empty text, by \<^verbatim>\<open>assistantContent || null\<close>) and with an empty product list. It appends
  one row to the table of chat messages, with the user content and that assistant message,
  executes no tool and calls the completion provider once.
\<close>

theorem addMessage_direct_answer:
  assumes db: "\<forall>k. dbFailure E k = None"
    and first: "chatCompletionsCreate E (countEvents isCompletionCall s) = Inr (Some message')"
    and calls: "cm_tool_calls message' = None \<or> cm_tool_calls message' = Some []"
    and intent: "\<not> shouldUseSearch content'"
  shows "\<exists>r row.
      fst (addMessage E sid content' aid s) = Inr r
      \<and> assistantMessage r = orNull (cm_content message')
      \<and> (\<forall>t. cm_content message' = Some t \<and> t \<noteq> [] \<longrightarrow> assistantMessage r = Some t)
      \<and> (cm_content message' = None \<longrightarrow> assistantMessage r = None)
      \<and> userMessage r = Some content'
      \<and> sessionId r = sid
      \<and> products r = []
      \<and> chatMessages (snd (addMessage E sid content' aid s)) = chatMessages s @ [row]
      \<and> row_sessionId row = sid
      \<and> row_userMessage row = Some content'
      \<and> row_assistantMessage row = assistantMessage r
      \<and> filter isToolExecution (newEvents s (snd (addMessage E sid content' aid s))) = []
      \<and> length (filter isCompletionCall (newEvents s (snd (addMessage E sid content' aid s)))) = 1"
proof -
  from db have d0: "dbFailure E (countEvents isDbCall s) = None"
    and d1: "dbFailure E (Suc (countEvents isDbCall s)) = None" by simp_all
  from addMessage_prefix[OF d0 d1, of aid sid content']
  obtain msgs s2 where
    tr2: "trace s2 = trace s @ [DbFindAgent aid, DbFindMessages sid]"
    and cm2: "chatMessages s2 = chatMessages s"
    and am: "addMessage E sid content' aid s =
          (case complete E msgs s2 of
             (Inl error, s3) \<Rightarrow> (Inl error, s3)
           | (Inr None, s3) \<Rightarrow> (Inl (newError ''No response from OpenAI''), s3)
           | (Inr (Some message'), s3) \<Rightarrow>
               (let assistantContent = cm_content message';
                    toolCalls = (case cm_tool_calls message' of Some tcs \<Rightarrow> tcs | None \<Rightarrow> [])
                in if length toolCalls = 0 then
                     (if shouldUseSearch content'
                      then forcedSearch E sid content' msgs assistantContent s3
                      else persistTurn E sid content' (orNull assistantContent) [] s3)
                   else toolRound E sid content' msgs assistantContent toolCalls s3))"
    by blast
  have cnt: "countEvents isCompletionCall s2 = countEvents isCompletionCall s"
    using countEvents_append[OF tr2, of isCompletionCall] by simp
  let ?s3 = "logEvent (CompletionCall msgs) s2"
  have comp: "complete E msgs s2 = (Inr (Some message'), ?s3)"
    by (simp add: complete_def cnt first)
  have noCalls: "length (case cm_tool_calls message' of Some tcs \<Rightarrow> tcs | None \<Rightarrow> []) = 0"
    using calls by auto
  have am': "addMessage E sid content' aid s
             = persistTurn E sid content' (orNull (cm_content message')) [] ?s3"
    unfolding am comp using noCalls intent by (simp add: Let_def)
  have d3: "dbFailure E (countEvents isDbCall ?s3) = None" using db by simp
  have tr3: "trace ?s3 = trace s @ [DbFindAgent aid, DbFindMessages sid, CompletionCall msgs]"
    by (simp add: trace_logEvent tr2)
  have cm3: "chatMessages ?s3 = chatMessages s"
    by (simp add: chatMessages_logEvent cm2)
  note pt = persistTurn_ok[OF d3, of sid content' "orNull (cm_content message')" "[]"]
  show ?thesis
    unfolding am' pt
    by (simp add: tr3 cm3 newEvents_def orNull_def)
qed

theorem addMessage_direct_answer_witness:
  "\<exists>r. fst (addMessage sampleEnv ''s1'' ''Hello there'' ''a1'' emptyState) = Inr r
       \<and> assistantMessage r = Some ''first'' \<and> userMessage r = Some ''Hello there''
       \<and> products r = []"
proof -
  have a: "\<forall>k. dbFailure sampleEnv k = None" by (simp add: sampleEnv_def)
  have b: "chatCompletionsCreate sampleEnv (countEvents isCompletionCall emptyState)
           = Inr (Some \<lparr> cm_content = Some ''first'', cm_tool_calls = None \<rparr>)"
    by (simp add: sampleEnv_def countEvents_def emptyState_def)
  have c: "cm_tool_calls \<lparr> cm_content = Some ''first'', cm_tool_calls = None \<rparr> = None
           \<or> cm_tool_calls \<lparr> cm_content = Some ''first'', cm_tool_calls = None \<rparr> = Some []"
    by simp
  have d: "\<not> shouldUseSearch ''Hello there''" by code_simp
  from addMessage_direct_answer[OF a b c d, of "''s1''" "''a1''"]
  show ?thesis by (auto simp add: orNull_def)
qed

section \<open>One round of tool execution\<close>

text \<open>
  C7. Whatever the environment answers, one orchestration calls the completion provider at
  most twice and executes no tool after its second completion call: the tool calls that the
  follow-up completion requests are never executed. The tool calls executed in the whole
  orchestration are none, or the one forced search, or exactly the calls that the first
  completion requested.
\<close>

theorem addMessage_one_tool_round:
  "length (filter isCompletionCall (newEvents s (snd (addMessage E sid content' aid s)))) \<le> 2
   \<and> filter isToolExecution
        (afterCompletion (afterCompletion (newEvents s (snd (addMessage E sid content' aid s))))) = []
   \<and> (executedCalls (newEvents s (snd (addMessage E sid content' aid s))) = []
      \<or> executedCalls (newEvents s (snd (addMessage E sid content' aid s))) = [forcedToolCall content']
      \<or> (\<exists>m. chatCompletionsCreate E (countEvents isCompletionCall s) = Inr (Some m)
              \<and> cm_tool_calls m
                  = Some (executedCalls (newEvents s (snd (addMessage E sid content' aid s))))))"
  (is "?P (newEvents s (snd (addMessage E sid content' aid s)))")
proof (cases "dbFailure E (countEvents isDbCall s)")
  case (Some e)
  then have "addMessage E sid content' aid s = (Inl e, logEvent (DbFindAgent aid) s)"
    by (simp add: addMessage_def findAgent_def dbCall_def)
  then have "newEvents s (snd (addMessage E sid content' aid s)) = [DbFindAgent aid]"
    by (simp add: newEvents_append trace_logEvent)
  then show ?thesis by simp
next
  case None
  note d0 = None
  show ?thesis
  proof (cases "dbFailure E (Suc (countEvents isDbCall s))")
    case (Some e)
    then have "addMessage E sid content' aid s
               = (Inl e, logEvent (DbFindMessages sid) (logEvent (DbFindAgent aid) s))"
      using d0
      by (simp add: addMessage_def findAgent_def findMessages_def dbCall_def Let_def
          countEvents_logEvent)
    then have "newEvents s (snd (addMessage E sid content' aid s))
               = [DbFindAgent aid, DbFindMessages sid]"
      by (simp add: newEvents_append trace_logEvent)
    then show ?thesis by simp
  next
    case None
    from addMessage_prefix[OF d0 None, of aid sid content']
    obtain msgs s2 where
      tr2: "trace s2 = trace s @ [DbFindAgent aid, DbFindMessages sid]"
      and am: "addMessage E sid content' aid s =
          (case complete E msgs s2 of
             (Inl error, s3) \<Rightarrow> (Inl error, s3)
           | (Inr None, s3) \<Rightarrow> (Inl (newError ''No response from OpenAI''), s3)
           | (Inr (Some message'), s3) \<Rightarrow>
               (let assistantContent = cm_content message';
                    toolCalls = (case cm_tool_calls message' of Some tcs \<Rightarrow> tcs | None \<Rightarrow> [])
                in if length toolCalls = 0 then
                     (if shouldUseSearch content'
                      then forcedSearch E sid content' msgs assistantContent s3
                      else persistTurn E sid content' (orNull assistantContent) [] s3)
                   else toolRound E sid content' msgs assistantContent toolCalls s3))"
      by blast
    have cnt: "countEvents isCompletionCall s2 = countEvents isCompletionCall s"
      using countEvents_append[OF tr2, of isCompletionCall] by simp
    let ?s3 = "logEvent (CompletionCall msgs) s2"
    let ?pre = "[DbFindAgent aid, DbFindMessages sid, CompletionCall msgs]"
    have tr3: "trace ?s3 = trace s @ ?pre"
      by (simp add: trace_logEvent tr2)
    have comp: "complete E msgs s2 = (chatCompletionsCreate E (countEvents isCompletionCall s), ?s3)"
      by (simp add: complete_def cnt)
    have step: "\<And>new1. trace (snd (addMessage E sid content' aid s)) = trace ?s3 @ new1
                  \<Longrightarrow> newEvents s (snd (addMessage E sid content' aid s)) = ?pre @ new1"
      by (simp add: newEvents_append tr3)
    show ?thesis
    proof (cases "chatCompletionsCreate E (countEvents isCompletionCall s)")
      case (Inl e)
      then have "addMessage E sid content' aid s = (Inl e, ?s3)"
        unfolding am comp by simp
      then have "newEvents s (snd (addMessage E sid content' aid s)) = ?pre"
        using step[of "[]"] by simp
      then show ?thesis by simp
    next
      case (Inr choice)
      show ?thesis
      proof (cases choice)
        case None
        then have "addMessage E sid content' aid s
                   = (Inl (newError ''No response from OpenAI''), ?s3)"
          unfolding am comp using Inr by simp
        then have "newEvents s (snd (addMessage E sid content' aid s)) = ?pre"
          using step[of "[]"] by simp
        then show ?thesis by simp
      next
        case (Some m)
        let ?tcs = "case cm_tool_calls m of Some tcs \<Rightarrow> tcs | None \<Rightarrow> []"
        show ?thesis
        proof (cases "length ?tcs = 0")
          case True
          show ?thesis
          proof (cases "shouldUseSearch content'")
            case True
            then have a: "addMessage E sid content' aid s
                       = forcedSearch E sid content' msgs (cm_content m) ?s3"
              unfolding am comp using Inr Some \<open>length ?tcs = 0\<close> by (simp add: Let_def)
            from forcedSearch_events[of E sid content' msgs "cm_content m" ?s3]
            obtain new1 where
              n1: "trace (snd (forcedSearch E sid content' msgs (cm_content m) ?s3))
                     = trace ?s3 @ new1"
              and n2: "length (filter isCompletionCall new1) \<le> 1"
              and n3: "filter isToolExecution (afterCompletion new1) = []"
              and n4: "executedCalls new1 = [forcedToolCall content']"
              by blast
            have "newEvents s (snd (addMessage E sid content' aid s)) = ?pre @ new1"
              using step[of new1] n1 a by simp
            then show ?thesis using n2 n3 n4 by simp
          next
            case False
            then have a: "addMessage E sid content' aid s
                       = persistTurn E sid content' (orNull (cm_content m)) [] ?s3"
              unfolding am comp using Inr Some \<open>length ?tcs = 0\<close> by (simp add: Let_def)
            have "newEvents s (snd (addMessage E sid content' aid s))
                  = ?pre @ [DbCreateMessage sid (Some content') (orNull (cm_content m))]"
              using step[of "[DbCreateMessage sid (Some content') (orNull (cm_content m))]"]
              unfolding a persistTurn_trace by simp
            then show ?thesis by simp
          qed
        next
          case False
          then obtain tcs where tcs: "cm_tool_calls m = Some tcs"
            by (cases "cm_tool_calls m") auto
          have a: "addMessage E sid content' aid s
                       = toolRound E sid content' msgs (cm_content m) tcs ?s3"
            unfolding am comp using Inr Some False tcs by (simp add: Let_def)
          from toolRound_events[of E sid content' msgs "cm_content m" tcs ?s3]
          obtain new1 where
            n1: "trace (snd (toolRound E sid content' msgs (cm_content m) tcs ?s3))
                   = trace ?s3 @ new1"
            and n2: "length (filter isCompletionCall new1) \<le> 1"
            and n3: "filter isToolExecution (afterCompletion new1) = []"
            and n4: "executedCalls new1 = tcs"
            by blast
          have "newEvents s (snd (addMessage E sid content' aid s)) = ?pre @ new1"
            using step[of new1] n1 a by simp
          then show ?thesis using n2 n3 n4 Inr Some tcs by simp
        qed
      qed
    qed
  qed
qed

section \<open>The forced search\<close>

text \<open>
  C1, as the code has it. When the store does not fail, the first completion requests no tool
  call, the user content matches the intent heuristic and the second completion call returns,
  the orchestration executes exactly one tool call, the forced search on the user content,
  and calls the completion provider exactly twice: three calls in all. It appends one row to
  the table of chat messages, with the user content and the assistant message of the answer.
  When the second completion has a non-empty text, the answer and the row carry that text
  and the products of the answer are those of the forced search. When the second completion
  has no message, no text or the empty text, the guard \<^verbatim>\<open>if (retryChoice?.message?.content)\<close>
  fails and the control falls through to the normal response: the answer and the row
  carry the first completion's text (\<^verbatim>\<open>null\<close> when it has none) and the product list is empty.
\<close>

theorem addMessage_forced_search:
  assumes db: "\<forall>k. dbFailure E k = None"
    and first: "chatCompletionsCreate E (countEvents isCompletionCall s) = Inr (Some message')"
    and calls: "cm_tool_calls message' = None \<or> cm_tool_calls message' = Some []"
    and intent: "shouldUseSearch content'"
    and second: "chatCompletionsCreate E (Suc (countEvents isCompletionCall s)) = Inr retryChoice"
  shows "\<exists>r row searchResult s1.
      fst (addMessage E sid content' aid s) = Inr r
      \<and> executeToolCall E (forcedToolCall content') (afterFirstCompletion E sid content' aid s)
          = (Inr searchResult, s1)
      \<and> executedCalls (newEvents s (snd (addMessage E sid content' aid s)))
          = [forcedToolCall content']
      \<and> length (filter isToolExecution (newEvents s (snd (addMessage E sid content' aid s)))) = 1
      \<and> length (filter isCompletionCall (newEvents s (snd (addMessage E sid content' aid s)))) = 2
      \<and> length (filter (\<lambda>e. isCompletionCall e \<or> isToolExecution e)
                  (newEvents s (snd (addMessage E sid content' aid s)))) = 3
      \<and> chatMessages (snd (addMessage E sid content' aid s)) = chatMessages s @ [row]
      \<and> row_sessionId row = sid
      \<and> row_userMessage row = Some content'
      \<and> row_assistantMessage row = assistantMessage r
      \<and> userMessage r = Some content'
      \<and> sessionId r = sid
      \<and> (case (case retryChoice of Some m \<Rightarrow> orNull (cm_content m) | None \<Rightarrow> None) of
            Some t \<Rightarrow> assistantMessage r = Some t \<and> products r = tr_products searchResult
          | None \<Rightarrow> assistantMessage r = orNull (cm_content message') \<and> products r = [])"
proof -
  from db have d0: "dbFailure E (countEvents isDbCall s) = None"
    and d1: "dbFailure E (Suc (countEvents isDbCall s)) = None" by simp_all
  let ?s3 = "afterFirstCompletion E sid content' aid s"
  let ?msgs = "firstMessages E sid content' aid s"
  have noCalls: "length (case cm_tool_calls message' of Some tcs \<Rightarrow> tcs | None \<Rightarrow> []) = 0"
    using calls by auto
  have am': "addMessage E sid content' aid s
             = forcedSearch E sid content' ?msgs (cm_content message') ?s3"
    unfolding addMessage_first[OF d0 d1] using first noCalls intent by (simp add: Let_def)
  have tr3: "trace ?s3 = trace s @ [DbFindAgent aid, DbFindMessages sid, CompletionCall ?msgs]"
    by (simp add: afterFirstCompletion_def trace_logEvent)
  have cm3: "chatMessages ?s3 = chatMessages s"
    by (simp add: afterFirstCompletion_def chatMessages_logEvent)
  have cnt3: "countEvents isCompletionCall ?s3 = Suc (countEvents isCompletionCall s)"
    by (simp add: afterFirstCompletion_def countEvents_logEvent)
  from forcedSearch_result[OF db, of ?s3 retryChoice content' sid ?msgs "cm_content message'"]
    second cnt3
  obtain r evs m saved sr s1 row where
    ex: "executeToolCall E (forcedToolCall content') ?s3 = (Inr sr, s1)"
    and r: "fst (forcedSearch E sid content' ?msgs (cm_content message') ?s3) = Inr r"
    and t: "trace (snd (forcedSearch E sid content' ?msgs (cm_content message') ?s3))
          = trace ?s3 @ ToolExecution (forcedToolCall content') # evs
              @ [CompletionCall m, DbCreateMessage sid (Some content') saved]"
    and q: "list_all quiet evs"
    and row: "chatMessages (snd (forcedSearch E sid content' ?msgs (cm_content message') ?s3))
                = chatMessages ?s3 @ [row]"
      "row_sessionId row = sid" "row_userMessage row = Some content'"
      "row_assistantMessage row = saved"
    and a: "assistantMessage r = saved" "userMessage r = Some content'" "sessionId r = sid"
    and c: "(case (case retryChoice of Some m \<Rightarrow> orNull (cm_content m) | None \<Rightarrow> None) of
            Some t \<Rightarrow> saved = Some t \<and> products r = tr_products sr
          | None \<Rightarrow> saved = orNull (cm_content message') \<and> products r = [])"
    by auto
  note qf = quiet_facts[OF q]
  have new: "newEvents s (snd (addMessage E sid content' aid s))
      = [DbFindAgent aid, DbFindMessages sid, CompletionCall ?msgs]
        @ ToolExecution (forcedToolCall content') # evs
        @ [CompletionCall m, DbCreateMessage sid (Some content') saved]"
    unfolding am' by (rule newEvents_append) (simp add: t tr3)
  have both: "filter (\<lambda>e. isCompletionCall e \<or> isToolExecution e) evs = []"
    using q by (induction evs) (auto simp: quiet_def)
  show ?thesis
    apply (rule exI[of _ r], rule exI[of _ row], rule exI[of _ sr], rule exI[of _ s1])
    using r a c qf row ex both unfolding new
    by (simp add: am' cm3 executedCalls_append split: option.splits)
qed

text \<open>
  A run in which the second completion has no text (it only requests a tool call again):
  the answer carries the text of the first completion and no products.
\<close>

theorem addMessage_forced_counterexample:
  "shouldUseSearch ''inventory''
   \<and> chatCompletionsCreate sampleEnv 0
       = Inr (Some \<lparr> cm_content = Some ''first'', cm_tool_calls = None \<rparr>)
   \<and> (\<exists>calls. chatCompletionsCreate sampleEnv 1
                 = Inr (Some \<lparr> cm_content = None, cm_tool_calls = calls \<rparr>))
   \<and> fst (addMessage sampleEnv ''s1'' ''inventory'' ''a1'' emptyState)
       = Inr \<lparr> msg_id = ''row-2'', sessionId = ''s1'', userMessage = Some ''inventory'',
               assistantMessage = Some ''first'', products = [], createdAt = 2, updatedAt = 2 \<rparr>"
proof (intro conjI)
  show "shouldUseSearch ''inventory''" by code_simp
  show "chatCompletionsCreate sampleEnv 0
       = Inr (Some \<lparr> cm_content = Some ''first'', cm_tool_calls = None \<rparr>)"
    by (simp add: sampleEnv_def)
  show "\<exists>calls. chatCompletionsCreate sampleEnv 1
                 = Inr (Some \<lparr> cm_content = None, cm_tool_calls = calls \<rparr>)"
    by (simp add: sampleEnv_def)
  show "fst (addMessage sampleEnv ''s1'' ''inventory'' ''a1'' emptyState)
       = Inr \<lparr> msg_id = ''row-2'', sessionId = ''s1'', userMessage = Some ''inventory'',
               assistantMessage = Some ''first'', products = [], createdAt = 2, updatedAt = 2 \<rparr>"
    by code_simp
qed

lemma forced_search_products:
  "(case fst (executeToolCall
        (sampleEnv \<lparr> chatCompletionsCreate :=
           (\<lambda>k. if k = 0 then Inr (Some \<lparr> cm_content = Some ''first'', cm_tool_calls = None \<rparr>)
                 else Inr (Some \<lparr> cm_content = Some ''second'', cm_tool_calls = None \<rparr>)),
           rpcMatchDocuments :=
           (\<lambda>k. Inr \<lparr> rpc_data = Some [\<lparr> doc_id = ''d1'', content = ''A sturdy item'',
                     metadata = JObj [(''productId'', JNum 7), (''name'', JStr ''Widget'')],
                     similarity = 1 \<rparr>], rpc_error = None \<rparr>) \<rparr>)
        (forcedToolCall ''inventory'')
        (afterFirstCompletion
           (sampleEnv \<lparr> chatCompletionsCreate :=
              (\<lambda>k. if k = 0 then Inr (Some \<lparr> cm_content = Some ''first'', cm_tool_calls = None \<rparr>)
                    else Inr (Some \<lparr> cm_content = Some ''second'', cm_tool_calls = None \<rparr>)),
              rpcMatchDocuments :=
              (\<lambda>k. Inr \<lparr> rpc_data = Some [\<lparr> doc_id = ''d1'', content = ''A sturdy item'',
                        metadata = JObj [(''productId'', JNum 7), (''name'', JStr ''Widget'')],
                        similarity = 1 \<rparr>], rpc_error = None \<rparr>) \<rparr>)
           ''s1'' ''inventory'' ''a1'' emptyState)) of
      Inr searchResult \<Rightarrow> tr_products searchResult
    | Inl error \<Rightarrow> [])
   = [\<lparr> name = ''Widget'', productId = ''7'', description = ''No description available'' \<rparr>]"
  by code_simp

theorem addMessage_forced_search_witness:
  "\<exists>r. fst (addMessage
              (sampleEnv \<lparr> chatCompletionsCreate :=
                 (\<lambda>k. if k = 0 then Inr (Some \<lparr> cm_content = Some ''first'', cm_tool_calls = None \<rparr>)
                       else Inr (Some \<lparr> cm_content = Some ''second'', cm_tool_calls = None \<rparr>)),
                 rpcMatchDocuments :=
                 (\<lambda>k. Inr \<lparr> rpc_data = Some [\<lparr> doc_id = ''d1'', content = ''A sturdy item'',
                           metadata = JObj [(''productId'', JNum 7), (''name'', JStr ''Widget'')],
                           similarity = 1 \<rparr>], rpc_error = None \<rparr>) \<rparr>)
              ''s1'' ''inventory'' ''a1'' emptyState) = Inr r
       \<and> assistantMessage r = Some ''second''
       \<and> products r
           = [\<lparr> name = ''Widget'', productId = ''7'', description = ''No description available'' \<rparr>]"
proof -
  let ?E = "sampleEnv \<lparr> chatCompletionsCreate :=
                 (\<lambda>k. if k = 0 then Inr (Some \<lparr> cm_content = Some ''first'', cm_tool_calls = None \<rparr>)
                       else Inr (Some \<lparr> cm_content = Some ''second'', cm_tool_calls = None \<rparr>)),
                 rpcMatchDocuments :=
                 (\<lambda>k. Inr \<lparr> rpc_data = Some [\<lparr> doc_id = ''d1'', content = ''A sturdy item'',
                           metadata = JObj [(''productId'', JNum 7), (''name'', JStr ''Widget'')],
                           similarity = 1 \<rparr>], rpc_error = None \<rparr>) \<rparr>"
  have a: "\<forall>k. dbFailure ?E k = None" by (simp add: sampleEnv_def)
  have b: "chatCompletionsCreate ?E (countEvents isCompletionCall emptyState)
           = Inr (Some \<lparr> cm_content = Some ''first'', cm_tool_calls = None \<rparr>)"
    by (simp add: countEvents_def emptyState_def)
  have c: "cm_tool_calls \<lparr> cm_content = Some ''first'', cm_tool_calls = None \<rparr> = None
           \<or> cm_tool_calls \<lparr> cm_content = Some ''first'', cm_tool_calls = None \<rparr> = Some []"
    by simp
  have d: "shouldUseSearch ''inventory''" by code_simp
  have e: "chatCompletionsCreate ?E (Suc (countEvents isCompletionCall emptyState))
           = Inr (Some \<lparr> cm_content = Some ''second'', cm_tool_calls = None \<rparr>)"
    by (simp add: countEvents_def emptyState_def)
  from addMessage_forced_search[OF a b c d e, of "''s1''" "''a1''"]
  obtain r row searchResult s1 where
    r: "fst (addMessage ?E ''s1'' ''inventory'' ''a1'' emptyState) = Inr r"
    and ex: "executeToolCall ?E (forcedToolCall ''inventory'')
               (afterFirstCompletion ?E ''s1'' ''inventory'' ''a1'' emptyState)
             = (Inr searchResult, s1)"
    and p: "assistantMessage r = Some ''second'' \<and> products r = tr_products searchResult"
    by (auto simp add: orNull_def)
  from forced_search_products ex have "tr_products searchResult
      = [\<lparr> name = ''Widget'', productId = ''7'', description = ''No description available'' \<rparr>]"
    by simp
  with r p show ?thesis by simp
qed
section \<open>Documents with incomplete metadata\<close>

lemma falsy_orElse: "\<not> truthy a \<Longrightarrow> orElse a b = b"
  by (simp add: orElse_def)

lemma String_empty: "String' (Some (JStr [])) = []"
  by (simp add: String'_def)

text \<open>
  C10. A document whose metadata name an identifier under one of the aliases
  \<^verbatim>\<open>productId\<close>, \<^verbatim>\<open>product_id\<close>, \<^verbatim>\<open>id\<close>, but no name (\<^verbatim>\<open>name\<close>, \<^verbatim>\<open>product_name\<close>, \<^verbatim>\<open>title\<close>) and
  no description (\<^verbatim>\<open>description\<close>, \<^verbatim>\<open>details\<close>), and whose content has no match of the
  \<^verbatim>\<open>Product ID\<close> pattern and none of the structured-heading pattern, gives no record: the
  metadata step yields none, and neither do the two content steps, so the extractor returns
  the empty list on that document.
\<close>

theorem documentProducts_incomplete_metadata:
  assumes ident: "truthy (getProp (metadata doc) ''productId'')
                  \<or> truthy (getProp (metadata doc) ''product_id'')
                  \<or> truthy (getProp (metadata doc) ''id'')"
    and noName: "\<not> truthy (getProp (metadata doc) ''name'')"
                "\<not> truthy (getProp (metadata doc) ''product_name'')"
                "\<not> truthy (getProp (metadata doc) ''title'')"
    and noDescription: "\<not> truthy (getProp (metadata doc) ''description'')"
                       "\<not> truthy (getProp (metadata doc) ''details'')"
    and noMarker: "matchAll flagI rxProductId (content doc) = []"
    and noHeading: "matchAll flagIM rxStructured (content doc) = []"
  shows "fromMetadata (metadata doc) = [] \<and> documentProducts doc = []
         \<and> extractProductsFromDocuments [doc] = []"
proof -
  have n: "String' (orElse (orElse (orElse (getProp (metadata doc) ''name'')
                 (getProp (metadata doc) ''product_name'')) (getProp (metadata doc) ''title''))
                 (Some (JStr []))) = []"
    using noName by (simp add: falsy_orElse String_empty)
  have d: "String' (orElse (orElse (getProp (metadata doc) ''description'')
                 (getProp (metadata doc) ''details'')) (Some (JStr []))) = []"
    using noDescription by (simp add: falsy_orElse String_empty)
  have m: "fromMetadata (metadata doc) = []"
    unfolding fromMetadata_def Let_def n d by simp
  have p: "documentProducts doc = []"
    unfolding documentProducts_def Let_def m by (simp add: noMarker noHeading)
  show ?thesis
    using m p by (simp add: extractProductsFromDocuments_def uniqueProducts_Nil)
qed

theorem documentProducts_incomplete_metadata_witness:
  "documentProducts \<lparr> doc_id = ''d1'', content = ''A sturdy item'',
                       metadata = JObj [(''product_id'', JNum 7), (''name'', JStr [])],
                       similarity = 1 \<rparr> = []"
proof -
  let ?doc = "\<lparr> doc_id = ''d1'', content = ''A sturdy item'',
                 metadata = JObj [(''product_id'', JNum 7), (''name'', JStr [])],
                 similarity = 1 \<rparr>"
  have a: "truthy (getProp (metadata ?doc) ''productId'')
                  \<or> truthy (getProp (metadata ?doc) ''product_id'')
                  \<or> truthy (getProp (metadata ?doc) ''id'')" by simp
  have b: "\<not> truthy (getProp (metadata ?doc) ''name'')"
          "\<not> truthy (getProp (metadata ?doc) ''product_name'')"
          "\<not> truthy (getProp (metadata ?doc) ''title'')"
          "\<not> truthy (getProp (metadata ?doc) ''description'')"
          "\<not> truthy (getProp (metadata ?doc) ''details'')" by simp_all
  have c: "matchAll flagI rxProductId (content ?doc) = []" by code_simp
  have d: "matchAll flagIM rxStructured (content ?doc) = []" by code_simp
  from documentProducts_incomplete_metadata[OF a b c d]
  show ?thesis by simp
qed

end
